theory Spec2Isabelle
  imports Main
begin

unbundle bit_operations_syntax

section \<open>Platform: signals, errno values, wait-status macros\<close>

text \<open>
  Both supervisors are written against the POSIX process interface.  The constants and
  the status macros below are not defined in the repository: they come from the platform
  headers the programs include (\<open>signal.h\<close>, \<open>errno.h\<close>, \<open>sys/wait.h\<close>); the values are
  those of Linux.  C \<open>int\<close> values (pids, signal numbers, errno, wait statuses, exit
  arguments) are modelled as \<open>int\<close>: the programs only compare them and mask them, they
  never do arithmetic that could overflow.
\<close>

definition SIGINT :: int where "SIGINT = 2"
definition SIGQUIT :: int where "SIGQUIT = 3"
definition SIGALRM :: int where "SIGALRM = 14"
definition SIGTERM :: int where "SIGTERM = 15"

definition EINTR :: int where "EINTR = 4"
definition ECHILD :: int where "ECHILD = 10"

text \<open>\<open>#define WTERMSIG(status) ((status) & 0x7f)\<close>\<close>
definition WTERMSIG :: "int \<Rightarrow> int" where
  "WTERMSIG status = status AND 0x7f"

text \<open>\<open>#define WEXITSTATUS(status) (((status) & 0xff00) >> 8)\<close>\<close>
definition WEXITSTATUS :: "int \<Rightarrow> int" where
  "WEXITSTATUS status = drop_bit 8 (status AND 0xff00)"

text \<open>\<open>#define WIFEXITED(status) (WTERMSIG(status) == 0)\<close>\<close>
definition WIFEXITED :: "int \<Rightarrow> bool" where
  "WIFEXITED status = (WTERMSIG status = 0)"

text \<open>\<open>#define WIFSIGNALED(status) (((signed char) (((status) & 0x7f) + 1) >> 1) > 0)\<close>:
  the cast to \<open>signed char\<close> keeps the low 8 bits as a two's complement value, the shift
  is arithmetic.\<close>
definition WIFSIGNALED :: "int \<Rightarrow> bool" where
  "WIFSIGNALED status = (0 < drop_bit 1 (signed_take_bit 7 ((status AND 0x7f) + 1)))"

text \<open>The status a parent sees after \<open>exit(rc)\<close>: the low eight bits of the argument.\<close>
definition exit_status :: "int \<Rightarrow> int" where
  "exit_status rc = rc AND 0xff"

section \<open>Observable effects\<close>

text \<open>
  What a supervisor does to the outside world is recorded in order: bytes written with
  \<open>write(STDOUT_FILENO, ...)\<close>, formatted output through \<open>printf\<close>/\<open>vprintf\<close> (format
  string and arguments), \<open>kill(pid, sig)\<close> and \<open>alarm(seconds)\<close>.
\<close>

datatype fmtarg = ArgInt int | ArgStr string | ArgChar char | ArgStrerror int

datatype effect =
    Write string
  | Printf string "fmtarg list"
  | Kill int int
  | Alarm int

fun is_log :: "effect \<Rightarrow> bool" where
  "is_log (Write s) = True"
| "is_log (Printf f as) = True"
| "is_log (Kill p s) = False"
| "is_log (Alarm n) = False"

text \<open>The effects that are not log output: signals sent and timers armed.\<close>
definition actions :: "effect list \<Rightarrow> effect list" where
  "actions out = filter (\<lambda>e. \<not> is_log e) out"

text \<open>How a piece of code leaves: it returns and the process keeps running, the
  process exits through \<open>exit(rc)\<close>, an \<open>assert\<close> fails, or it sleeps forever.\<close>
datatype 's outcome =
    Running 's
  | Exits int 's
  | Aborts 's
  | SleepsForever 's

fun state_of :: "'s outcome \<Rightarrow> 's" where
  "state_of (Running s) = s"
| "state_of (Exits rc s) = s"
| "state_of (Aborts s) = s"
| "state_of (SleepsForever s) = s"

section \<open>tinyreaper: the supervisor with signal relay and shutdown deadline\<close>

text \<open>
  The process-global variables \<open>verbose\<close>, \<open>command_pid\<close> and \<open>shutdown_in_progress\<close>,
  together with the effects produced so far.
\<close>

record state =
  verbose :: int
  command_pid :: int
  shutdown_in_progress :: int
  effects :: "effect list"

text \<open>What the kernel answers for this process: \<open>getpid()\<close>, \<open>getpgrp()\<close>; and
  \<open>child_argv[0]\<close>, the command's path.\<close>
record proc =
  getpid :: int
  getpgrp :: int
  child_argv0 :: string

text \<open>\<open>static const int shutdown_timeout_seconds = 5;\<close>\<close>
definition shutdown_timeout_seconds :: int where
  "shutdown_timeout_seconds = 5"

subsection \<open>Logging\<close>

text \<open>\<open>write(STDOUT_FILENO, s, sizeof(s))\<close>: \<open>sizeof\<close> of a string literal counts the
  terminating NUL, which is written too.\<close>
definition WRITE_LITERAL_STRING :: "string \<Rightarrow> state \<Rightarrow> state" where
  "WRITE_LITERAL_STRING s st = st\<lparr>effects := effects st @ [Write (s @ [CHR 0x00])]\<rparr>"

definition LOG :: "string \<Rightarrow> state \<Rightarrow> state" where
  "LOG msg st = WRITE_LITERAL_STRING (''tinyreaper: '' @ msg @ [CHR 0x0A]) st"

definition LOGf :: "string \<Rightarrow> fmtarg list \<Rightarrow> state \<Rightarrow> state" where
  "LOGf fmt args st =
     (let st = WRITE_LITERAL_STRING ''tinyreaper: '' st
      in st\<lparr>effects := effects st @ [Printf fmt args, Printf [CHR 0x0A] []]\<rparr>)"

definition VERBOSEf :: "string \<Rightarrow> fmtarg list \<Rightarrow> state \<Rightarrow> state" where
  "VERBOSEf fmt args st = (if verbose st \<noteq> 0 then LOGf fmt args st else st)"

definition VERBOSE :: "string \<Rightarrow> state \<Rightarrow> state" where
  "VERBOSE msg st = (if verbose st \<noteq> 0 then LOG msg st else st)"

text \<open>Signal-safe writing of a decimal number.  The argument is the value of the
  \<open>unsigned\<close> parameter; every caller passes a pid, a signal number or an exit status,
  all below \<open>2^31\<close>, where \<open>int a = n\<close> keeps the value.\<close>
fun write_num :: "nat \<Rightarrow> state \<Rightarrow> state" where
  "write_num n st =
     (let st = (if n > 9 then write_num (n div 10) st else st)
      in st\<lparr>effects := effects st @ [Write [''0123456789'' ! (n mod 10)]]\<rparr>)"

declare write_num.simps [simp del]

text \<open>Signal-safe logging of a process exit status.\<close>
definition LOG_process_state :: "int \<Rightarrow> int \<Rightarrow> state \<Rightarrow> state" where
  "LOG_process_state pid status st =
     (if pid > 0 then
        (if WIFEXITED status then
           (let st = WRITE_LITERAL_STRING ''child '' st;
                st = write_num (nat pid) st;
                st = WRITE_LITERAL_STRING '' exited with '' st;
                st = write_num (nat (WEXITSTATUS status)) st;
                st = WRITE_LITERAL_STRING [CHR 0x0A] st
            in st)
         else if WIFSIGNALED status then
           (let st = WRITE_LITERAL_STRING ''child '' st;
                st = write_num (nat pid) st;
                st = WRITE_LITERAL_STRING '' terminated with '' st;
                st = write_num (nat (WTERMSIG status)) st;
                st = WRITE_LITERAL_STRING [CHR 0x0A] st
            in st)
         else st)
      else st)"

subsection \<open>Child handling and signal handling\<close>

text \<open>The signal goes to the process group (\<open>kill(0, sig)\<close>), which includes the
  sender, and only if the process is its group's leader.\<close>
definition send_signal_to_all_children :: "proc \<Rightarrow> int \<Rightarrow> state \<Rightarrow> state" where
  "send_signal_to_all_children p sig st =
     (if getpgrp p = getpid p then st\<lparr>effects := effects st @ [Kill 0 sig]\<rparr> else st)"

definition start_shutdown :: "proc \<Rightarrow> state \<Rightarrow> state" where
  "start_shutdown p st =
     (if shutdown_in_progress st \<noteq> 0 then VERBOSE ''Shutdown already in progress.'' st
      else
        (let st = st\<lparr>shutdown_in_progress := 1\<rparr>;
             st = LOG ''Terminating children...'' st;
             st = send_signal_to_all_children p SIGTERM st;
             st = VERBOSE ''tick tock...'' st;
             st = st\<lparr>effects := effects st @ [Alarm shutdown_timeout_seconds]\<rparr>
         in st))"

definition handle_alarm :: "state \<Rightarrow> state outcome" where
  "handle_alarm st =
     (if shutdown_in_progress st \<noteq> 0
      then Exits (- 1) (LOG ''Shutdown timeout. Terminating.'' st)
      else Running st)"

text \<open>The handler installed for SIGTERM, SIGINT, SIGQUIT and SIGALRM; \<open>si_pid\<close> is the
  sender recorded in the \<open>siginfo_t\<close>.\<close>
definition signal_handler :: "proc \<Rightarrow> int \<Rightarrow> int \<Rightarrow> state \<Rightarrow> state outcome" where
  "signal_handler p sig si_pid st =
     (if sig = SIGTERM \<and> si_pid = getpid p
      then Running (VERBOSE ''Ignoring SIGTERM sent by myself.'' st)
      else
        (let st = (if verbose st \<noteq> 0 then
                     (let st = WRITE_LITERAL_STRING ''Signal: '' st;
                          st = write_num (nat sig) st;
                          st = WRITE_LITERAL_STRING [CHR 0x0A] st
                      in st)
                   else st)
         in if sig = SIGTERM \<or> sig = SIGINT \<or> sig = SIGQUIT then Running (start_shutdown p st)
            else if sig = SIGALRM then handle_alarm st
            else Running st))"

subsection \<open>The parent branch of \<open>main\<close>\<close>

text \<open>
  What happens to the parent while it loops: a call of \<open>wait(&status)\<close> returns (the
  child pid or \<open>-1\<close>, the status stored, and \<open>errno\<close>), or a signal is delivered and the
  handler runs (signal number and sender).  The handler has no \<open>SA_RESTART\<close>, so a
  signal that arrives while the loop is blocked in \<open>wait\<close> is followed by a
  \<open>Wait (-1) _ EINTR\<close> event.  Handlers are run to completion between two steps of the loop;
  a signal delivered while \<open>main\<close> is inside \<open>start_shutdown\<close> is treated separately, by
  \<open>start_shutdown_preempted\<close> below.
\<close>

datatype event =
    Wait int int int
  | Signal int int

text \<open>One pass through the body of \<open>for (;;) { ... }\<close> after \<open>wait(&status)\<close> has
  returned: the loop goes on with the globals and the local \<open>command_status\<close>, or it is
  left through \<open>break\<close>.\<close>
datatype iteration = Continue state int | Break state

definition loop_body :: "proc \<Rightarrow> int \<Rightarrow> int \<Rightarrow> int \<Rightarrow> state \<Rightarrow> int \<Rightarrow> iteration" where
  "loop_body p child status errno st cstatus =
     (if child > 0 then
        (let st = LOG_process_state child status st
         in if child = command_pid st then
              (let st = VERBOSEf ''%s finished.'' [ArgStr (child_argv0 p)] st;
                   cstatus = status;
                   st = start_shutdown p st
               in Continue st cstatus)
            else Continue st cstatus)
      else if child = - 1 \<and> errno = ECHILD then
        Break (VERBOSE ''all child processes terminated.'' st)
      else Continue st cstatus)"

text \<open>The code after the loop: \<open>-1\<close> if the command was terminated by a signal or its
  exit status was not 0.\<close>
definition after_loop :: "state \<Rightarrow> int \<Rightarrow> state outcome" where
  "after_loop st cstatus =
     (let rc = (if (WIFEXITED cstatus \<and> WEXITSTATUS cstatus \<noteq> 0) \<or> WIFSIGNALED cstatus
                then - 1 else 0);
          st = VERBOSEf ''Returning %d'' [ArgInt rc] st
      in Exits rc st)"

text \<open>The loop over the events that reach the parent.  When the events are used up the
  process is still inside the loop.\<close>
fun tinyreaper_loop :: "proc \<Rightarrow> event list \<Rightarrow> state \<Rightarrow> int \<Rightarrow> state outcome" where
  "tinyreaper_loop p [] st cstatus = Running st"
| "tinyreaper_loop p (Signal sig si_pid # es) st cstatus =
     (case signal_handler p sig si_pid st of
        Running st' \<Rightarrow> tinyreaper_loop p es st' cstatus
      | Exits rc st' \<Rightarrow> Exits rc st'
      | Aborts st' \<Rightarrow> Aborts st'
      | SleepsForever st' \<Rightarrow> SleepsForever st')"
| "tinyreaper_loop p (Wait child status errno # es) st cstatus =
     (case loop_body p child status errno st cstatus of
        Continue st' cstatus' \<Rightarrow> tinyreaper_loop p es st' cstatus'
      | Break st' \<Rightarrow> after_loop st' cstatus)"

text \<open>The parent after \<open>command_pid = fork()\<close> returned \<open>cpid\<close> (not 0):
  \<open>int command_status = 0;\<close> and the loop.\<close>
definition tinyreaper_main :: "proc \<Rightarrow> int \<Rightarrow> event list \<Rightarrow> state \<Rightarrow> state outcome" where
  "tinyreaper_main p cpid es st = tinyreaper_loop p es (st\<lparr>command_pid := cpid\<rparr>) 0"

text \<open>
  \<open>start_shutdown\<close> is also called by \<open>main\<close>, where nothing keeps a signal from being
  delivered in the middle of it: the handlers are installed with an empty \<open>sa_mask\<close> and
  \<open>main\<close> never blocks signals.  The part of \<open>start_shutdown\<close> after the test of
  \<open>shutdown_in_progress\<close> has found the flag clear:
\<close>
definition start_shutdown_rest :: "proc \<Rightarrow> state \<Rightarrow> state" where
  "start_shutdown_rest p st =
     (let st = st\<lparr>shutdown_in_progress := 1\<rparr>;
          st = LOG ''Terminating children...'' st;
          st = send_signal_to_all_children p SIGTERM st;
          st = VERBOSE ''tick tock...'' st;
          st = st\<lparr>effects := effects st @ [Alarm shutdown_timeout_seconds]\<rparr>
      in st)"

text \<open>The call of \<open>start_shutdown\<close> from \<open>main\<close> when a signal is delivered right after
  \<open>main\<close> has read the flag in \<open>if (shutdown_in_progress)\<close> and before it goes on: the
  handler runs to completion, then \<open>main\<close> continues on the branch it had chosen.\<close>
definition start_shutdown_preempted :: "proc \<Rightarrow> int \<Rightarrow> int \<Rightarrow> state \<Rightarrow> state outcome" where
  "start_shutdown_preempted p sig si_pid st =
     (if shutdown_in_progress st \<noteq> 0 then
        (case signal_handler p sig si_pid st of
           Running st' \<Rightarrow> Running (VERBOSE ''Shutdown already in progress.'' st')
         | Exits rc st' \<Rightarrow> Exits rc st'
         | Aborts st' \<Rightarrow> Aborts st'
         | SleepsForever st' \<Rightarrow> SleepsForever st')
      else
        (case signal_handler p sig si_pid st of
           Running st' \<Rightarrow> Running (start_shutdown_rest p st')
         | Exits rc st' \<Rightarrow> Exits rc st'
         | Aborts st' \<Rightarrow> Aborts st'
         | SleepsForever st' \<Rightarrow> SleepsForever st'))"

text \<open>The pass of the loop that reaps the command, with a signal delivered inside its
  call of \<open>start_shutdown\<close> as above.\<close>
definition command_reaped_preempted ::
  "proc \<Rightarrow> int \<Rightarrow> int \<Rightarrow> int \<Rightarrow> int \<Rightarrow> state \<Rightarrow> state outcome" where
  "command_reaped_preempted p child status sig si_pid st =
     (let st = LOG_process_state child status st;
          st = VERBOSEf ''%s finished.'' [ArgStr (child_argv0 p)] st
      in start_shutdown_preempted p sig si_pid st)"

text \<open>The events that make the loop stop waiting, and those that hand it the command's
  status.\<close>
fun is_no_child :: "event \<Rightarrow> bool" where
  "is_no_child (Wait child status errno) = (\<not> child > 0 \<and> child = - 1 \<and> errno = ECHILD)"
| "is_no_child (Signal sig si_pid) = False"

fun is_alarm :: "event \<Rightarrow> bool" where
  "is_alarm (Wait child status errno) = False"
| "is_alarm (Signal sig si_pid) = (sig = SIGALRM)"

fun reaps :: "int \<Rightarrow> event \<Rightarrow> bool" where
  "reaps cpid (Wait child status errno) = (child > 0 \<and> child = cpid)"
| "reaps cpid (Signal sig si_pid) = False"

text \<open>Two states that differ at most in the log output written.\<close>
definition log_only :: "state \<Rightarrow> state \<Rightarrow> bool" where
  "log_only st st' \<longleftrightarrow>
     verbose st' = verbose st \<and> command_pid st' = command_pid st \<and>
     shutdown_in_progress st' = shutdown_in_progress st \<and>
     actions (effects st') = actions (effects st)"

text \<open>What beginning a shutdown does besides logging: SIGTERM to the group when the
  process leads it, then the alarm.\<close>
definition shutdown_actions :: "proc \<Rightarrow> effect list" where
  "shutdown_actions p =
     (if getpgrp p = getpid p then [Kill 0 SIGTERM] else []) @ [Alarm shutdown_timeout_seconds]"

text \<open>The first start of a shutdown, and what any stretch of the program can do to
  the globals: write log output, or begin the shutdown once.\<close>
definition shutdown_begun :: "proc \<Rightarrow> state \<Rightarrow> state \<Rightarrow> bool" where
  "shutdown_begun p st st' \<longleftrightarrow>
     shutdown_in_progress st = 0 \<and> shutdown_in_progress st' = 1 \<and>
     verbose st' = verbose st \<and> command_pid st' = command_pid st \<and>
     actions (effects st') = actions (effects st) @ shutdown_actions p"

definition evolves :: "proc \<Rightarrow> state \<Rightarrow> state \<Rightarrow> bool" where
  "evolves p st st' \<longleftrightarrow> log_only st st' \<or> shutdown_begun p st st'"

section \<open>little-reaper: the supervisor with wait policies\<close>

text \<open>The globals set by the option parser (\<open>-v\<close>, \<open>-e\<close>, \<open>-r\<close>, \<open>-w\<close>, \<open>-W\<close>) and fixed
  afterwards.\<close>
record config =
  verbose_lr :: int
  fault_tolerant :: int
  dont_reap :: int
  wait_for_all_sub_processes :: int
  wait_forever :: int

text \<open>The locals of \<open>main\<close> that the loop updates, and the output so far.\<close>
record loop_state =
  command_status :: int
  command_terminated :: int
  no_child_left :: int
  printed :: "effect list"

definition LOG_lr :: "string \<Rightarrow> loop_state \<Rightarrow> loop_state" where
  "LOG_lr msg ls = ls\<lparr>printed := printed ls @ [Printf (''%s'' @ [CHR 0x0A]) [ArgStr msg]]\<rparr>"

definition LOGf_lr :: "string \<Rightarrow> fmtarg list \<Rightarrow> loop_state \<Rightarrow> loop_state" where
  "LOGf_lr fmt args ls = ls\<lparr>printed := printed ls @ [Printf fmt args, Printf [CHR 0x0A] []]\<rparr>"

definition VERBOSEf_lr :: "config \<Rightarrow> string \<Rightarrow> fmtarg list \<Rightarrow> loop_state \<Rightarrow> loop_state" where
  "VERBOSEf_lr cfg fmt args ls = (if verbose_lr cfg \<noteq> 0 then LOGf_lr fmt args ls else ls)"

definition VERBOSE_lr :: "config \<Rightarrow> string \<Rightarrow> loop_state \<Rightarrow> loop_state" where
  "VERBOSE_lr cfg msg ls = (if verbose_lr cfg \<noteq> 0 then LOG_lr msg ls else ls)"

definition return_code_from_process_status :: "int \<Rightarrow> int" where
  "return_code_from_process_status status =
     (if WIFSIGNALED status then - 1
      else if WIFEXITED status then WEXITSTATUS status
      else - 1)"

definition infinite_sleep :: "config \<Rightarrow> loop_state \<Rightarrow> loop_state outcome" where
  "infinite_sleep cfg ls = SleepsForever (VERBOSE_lr cfg ''sleeping forever...'' ls)"

text \<open>First half of the loop body: classify what \<open>wait(&status)\<close> returned.\<close>
definition reap_lr :: "config \<Rightarrow> int \<Rightarrow> int \<Rightarrow> int \<Rightarrow> int \<Rightarrow> loop_state \<Rightarrow> loop_state" where
  "reap_lr cfg command child status errno ls =
     (if child > 0 then
        (if WIFEXITED status \<or> WIFSIGNALED status then
           (let ls = (if WIFEXITED status
                      then VERBOSEf_lr cfg ''child %d exited with %d''
                             [ArgInt child, ArgInt (WEXITSTATUS status)] ls
                      else ls);
                ls = (if WIFSIGNALED status
                      then VERBOSEf_lr cfg ''child %d terminated with signal %d''
                             [ArgInt child, ArgInt (WTERMSIG status)] ls
                      else ls)
            in if child = command then
                 (let ls = VERBOSE_lr cfg ''Command finished.'' ls
                  in ls\<lparr>command_status := status, command_terminated := 1\<rparr>)
               else ls)
         else ls)
      else
        (if errno = ECHILD then
           VERBOSE_lr cfg ''All child processes finished'' (ls\<lparr>no_child_left := 1\<rparr>)
         else VERBOSEf_lr cfg ''wait error (%d %s)'' [ArgInt errno, ArgStrerror errno] ls))"

text \<open>Second half of the loop body: the wait policy.  \<open>Running\<close> is the next pass of
  the loop; a failing \<open>assert(command_terminated)\<close> aborts the process.\<close>
definition policy_lr :: "config \<Rightarrow> loop_state \<Rightarrow> loop_state outcome" where
  "policy_lr cfg ls =
     (if wait_forever cfg \<noteq> 0 then
        (if no_child_left ls \<noteq> 0 then infinite_sleep cfg ls else Running ls)
      else if wait_for_all_sub_processes cfg \<noteq> 0 then
        (if no_child_left ls \<noteq> 0 then
           (if command_terminated ls \<noteq> 0
            then Exits (return_code_from_process_status (command_status ls)) ls
            else Aborts ls)
         else Running ls)
      else
        (if command_terminated ls \<noteq> 0
         then Exits (return_code_from_process_status (command_status ls)) ls
         else Running ls))"

text \<open>The loop over the results of the successive \<open>wait\<close> calls (child, status, errno).\<close>
fun little_reaper_loop ::
  "config \<Rightarrow> int \<Rightarrow> (int \<times> int \<times> int) list \<Rightarrow> loop_state \<Rightarrow> loop_state outcome" where
  "little_reaper_loop cfg command [] ls = Running ls"
| "little_reaper_loop cfg command ((child, status, errno) # ws) ls =
     (case policy_lr cfg (reap_lr cfg command child status errno ls) of
        Running ls' \<Rightarrow> little_reaper_loop cfg command ws ls'
      | Exits rc ls' \<Rightarrow> Exits rc ls'
      | Aborts ls' \<Rightarrow> Aborts ls'
      | SleepsForever ls' \<Rightarrow> SleepsForever ls')"

text \<open>The parent after \<open>fork()\<close> returned \<open>command\<close> (not 0); \<open>out\<close> is what has been
  printed before.\<close>
definition little_reaper_main ::
  "config \<Rightarrow> int \<Rightarrow> (int \<times> int \<times> int) list \<Rightarrow> effect list \<Rightarrow> loop_state outcome" where
  "little_reaper_main cfg command ws out =
     (let ls = \<lparr>command_status = 0, command_terminated = 0, no_child_left = 0, printed = out\<rparr>
      in if dont_reap cfg \<noteq> 0 then
           (if wait_forever cfg \<noteq> 0 then infinite_sleep cfg ls else Exits 0 ls)
         else little_reaper_loop cfg command ws ls)"

text \<open>A result of \<open>wait\<close> that hands little-reaper the terminal status of the command.\<close>
fun finishes :: "int \<Rightarrow> int \<times> int \<times> int \<Rightarrow> bool" where
  "finishes command (child, status, errno) =
     (child > 0 \<and> (WIFEXITED status \<or> WIFSIGNALED status) \<and> child = command)"

fun still_running :: "'s outcome \<Rightarrow> bool" where
  "still_running (Running s) = True"
| "still_running (Exits rc s) = False"
| "still_running (Aborts s) = False"
| "still_running (SleepsForever s) = False"

text \<open>The argument of \<open>exit\<close>, when the process has exited.\<close>
fun exit_code :: "'s outcome \<Rightarrow> int option" where
  "exit_code (Running s) = None"
| "exit_code (Exits rc s) = Some rc"
| "exit_code (Aborts s) = None"
| "exit_code (SleepsForever s) = None"

text \<open>A result of \<open>wait\<close> that tells little-reaper that no child is left.\<close>
fun fails_no_child :: "int \<times> int \<times> int \<Rightarrow> bool" where
  "fails_no_child (child, status, errno) = (\<not> child > 0 \<and> errno = ECHILD)"

text \<open>The state in which little-reaper enters its loop.\<close>
definition initial_loop_state :: "effect list \<Rightarrow> loop_state" where
  "initial_loop_state out =
     \<lparr>command_status = 0, command_terminated = 0, no_child_left = 0, printed = out\<rparr>"

section \<open>The supervisor with the options \<open>-w\<close> and \<open>-t\<close>\<close>

text \<open>
  A third revision of the supervisor (the second program text in
  \<open>src/examples/make-orphan.c\<close>): it has the signal relay and the deadline alarm of
  tinyreaper, and two options that say what to do once the command has terminated,
  \<open>-w\<close> (\<open>wait_for_all_children\<close>) and \<open>-t\<close>
  (\<open>terminate_all_children_after_command_terminated\<close>).  Its names are those of
  tinyreaper; here they carry the suffix \<open>_wt\<close>.
\<close>

record state_wt =
  verbose_wt :: int
  wait_for_all_children :: int
  terminate_all_children_after_command_terminated :: int
  command_pid_wt :: int
  shutdown_in_progress_wt :: int
  shutdown_signal :: int
  effects_wt :: "effect list"

definition WRITE_LITERAL_STRING_wt :: "string \<Rightarrow> state_wt \<Rightarrow> state_wt" where
  "WRITE_LITERAL_STRING_wt s st = st\<lparr>effects_wt := effects_wt st @ [Write (s @ [CHR 0x00])]\<rparr>"

text \<open>\<open>#define LOG(msg) WRITE_LITERAL_STRING(msg "\n")\<close>\<close>
definition LOG_wt :: "string \<Rightarrow> state_wt \<Rightarrow> state_wt" where
  "LOG_wt msg st = WRITE_LITERAL_STRING_wt (msg @ [CHR 0x0A]) st"

definition LOGf_wt :: "string \<Rightarrow> fmtarg list \<Rightarrow> state_wt \<Rightarrow> state_wt" where
  "LOGf_wt fmt args st =
     st\<lparr>effects_wt := effects_wt st @ [Printf fmt args, Printf [CHR 0x0A] []]\<rparr>"

definition VERBOSEf_wt :: "string \<Rightarrow> fmtarg list \<Rightarrow> state_wt \<Rightarrow> state_wt" where
  "VERBOSEf_wt fmt args st = (if verbose_wt st \<noteq> 0 then LOGf_wt fmt args st else st)"

definition VERBOSE_wt :: "string \<Rightarrow> state_wt \<Rightarrow> state_wt" where
  "VERBOSE_wt msg st = (if verbose_wt st \<noteq> 0 then LOG_wt msg st else st)"

fun write_num_wt :: "nat \<Rightarrow> state_wt \<Rightarrow> state_wt" where
  "write_num_wt n st =
     (let st = (if n > 9 then write_num_wt (n div 10) st else st)
      in st\<lparr>effects_wt := effects_wt st @ [Write [''0123456789'' ! (n mod 10)]]\<rparr>)"

declare write_num_wt.simps [simp del]

definition LOG_process_state_wt :: "int \<Rightarrow> int \<Rightarrow> state_wt \<Rightarrow> state_wt" where
  "LOG_process_state_wt pid status st =
     (if pid > 0 then
        (if WIFEXITED status then
           (let st = WRITE_LITERAL_STRING_wt ''child '' st;
                st = write_num_wt (nat pid) st;
                st = WRITE_LITERAL_STRING_wt '' exited with '' st;
                st = write_num_wt (nat (WEXITSTATUS status)) st;
                st = WRITE_LITERAL_STRING_wt [CHR 0x0A] st
            in st)
         else if WIFSIGNALED status then
           (let st = WRITE_LITERAL_STRING_wt ''child '' st;
                st = write_num_wt (nat pid) st;
                st = WRITE_LITERAL_STRING_wt '' terminated with '' st;
                st = write_num_wt (nat (WTERMSIG status)) st;
                st = WRITE_LITERAL_STRING_wt [CHR 0x0A] st
            in st)
         else st)
      else st)"

definition send_signal_to_all_children_wt :: "proc \<Rightarrow> int \<Rightarrow> state_wt \<Rightarrow> state_wt" where
  "send_signal_to_all_children_wt p sig st =
     (if getpgrp p = getpid p then st\<lparr>effects_wt := effects_wt st @ [Kill 0 sig]\<rparr> else st)"

definition handle_shutdown_signal :: "proc \<Rightarrow> int \<Rightarrow> state_wt \<Rightarrow> state_wt" where
  "handle_shutdown_signal p sig st =
     (if \<not> shutdown_in_progress_wt st \<noteq> 0 then
        (let st = st\<lparr>shutdown_in_progress_wt := 1\<rparr>;
             st = st\<lparr>shutdown_signal := sig\<rparr>;
             st = LOG_wt ''Terminating children...'' st;
             st = send_signal_to_all_children_wt p SIGTERM st;
             st = VERBOSE_wt ''tick tock...'' st;
             st = st\<lparr>effects_wt := effects_wt st @ [Alarm shutdown_timeout_seconds]\<rparr>
         in st)
      else VERBOSE_wt ''shutdown in progress, ignoring further attempts.'' st)"

definition handle_alarm_wt :: "state_wt \<Rightarrow> state_wt outcome" where
  "handle_alarm_wt st =
     (if shutdown_in_progress_wt st \<noteq> 0
      then Exits (- 1) (LOG_wt ''Shutdown timeout. Terminating.'' st)
      else Running st)"

text \<open>The handler installed for SIGTERM, SIGINT and SIGALRM.\<close>
definition signal_handler_wt :: "proc \<Rightarrow> int \<Rightarrow> int \<Rightarrow> state_wt \<Rightarrow> state_wt outcome" where
  "signal_handler_wt p sig si_pid st =
     (if sig = SIGTERM \<and> si_pid = getpid p
      then Running (VERBOSE_wt ''Ignoring SIGTERM sent by myself.'' st)
      else
        (let st = WRITE_LITERAL_STRING_wt ''Signal: '' st;
             st = write_num_wt (nat sig) st;
             st = WRITE_LITERAL_STRING_wt [CHR 0x0A] st
         in if sig = SIGTERM \<or> sig = SIGINT then Running (handle_shutdown_signal p sig st)
            else if sig = SIGALRM then handle_alarm_wt st
            else Running st))"

text \<open>One pass through the loop body after \<open>wait(&status)\<close> has returned.  Here the loop
  is also left when the command has been reaped and \<open>-w\<close> is not set, with the command's
  status already stored in \<open>command_status\<close>.\<close>
datatype iteration_wt = Continue_wt state_wt int | Break_wt state_wt int

definition loop_body_wt ::
  "proc \<Rightarrow> int \<Rightarrow> int \<Rightarrow> int \<Rightarrow> state_wt \<Rightarrow> int \<Rightarrow> iteration_wt" where
  "loop_body_wt p child status errno st cstatus =
     (if child > 0 then
        (let st = LOG_process_state_wt child status st
         in if child = command_pid_wt st then
              (let st = VERBOSEf_wt ''%s finished.'' [ArgStr (child_argv0 p)] st;
                   cstatus = status;
                   st = (if terminate_all_children_after_command_terminated st \<noteq> 0
                         then send_signal_to_all_children_wt p SIGTERM st else st)
               in if \<not> wait_for_all_children st \<noteq> 0 then Break_wt st cstatus
                  else Continue_wt st cstatus)
            else Continue_wt st cstatus)
      else if child = - 1 \<and> errno = ECHILD then
        Break_wt (VERBOSE_wt ''all child processes terminated.'' st) cstatus
      else Continue_wt st cstatus)"

definition after_loop_wt :: "state_wt \<Rightarrow> int \<Rightarrow> state_wt outcome" where
  "after_loop_wt st cstatus =
     (let rc = (if (WIFEXITED cstatus \<and> WEXITSTATUS cstatus \<noteq> 0) \<or> WIFSIGNALED cstatus
                then - 1 else 0);
          st = VERBOSEf_wt ''Returning %d'' [ArgInt rc] st
      in Exits rc st)"

fun loop_wt :: "proc \<Rightarrow> event list \<Rightarrow> state_wt \<Rightarrow> int \<Rightarrow> state_wt outcome" where
  "loop_wt p [] st cstatus = Running st"
| "loop_wt p (Signal sig si_pid # es) st cstatus =
     (case signal_handler_wt p sig si_pid st of
        Running st' \<Rightarrow> loop_wt p es st' cstatus
      | Exits rc st' \<Rightarrow> Exits rc st'
      | Aborts st' \<Rightarrow> Aborts st'
      | SleepsForever st' \<Rightarrow> SleepsForever st')"
| "loop_wt p (Wait child status errno # es) st cstatus =
     (case loop_body_wt p child status errno st cstatus of
        Continue_wt st' cstatus' \<Rightarrow> loop_wt p es st' cstatus'
      | Break_wt st' cstatus' \<Rightarrow> after_loop_wt st' cstatus')"

text \<open>The parent after \<open>command_pid = fork()\<close> returned \<open>cpid\<close> (not 0).\<close>
definition main_wt :: "proc \<Rightarrow> int \<Rightarrow> event list \<Rightarrow> state_wt \<Rightarrow> state_wt outcome" where
  "main_wt p cpid es st = loop_wt p es (st\<lparr>command_pid_wt := cpid\<rparr>) 0"

text \<open>Two states of this supervisor that differ at most in the log output written.\<close>
definition log_only_wt :: "state_wt \<Rightarrow> state_wt \<Rightarrow> bool" where
  "log_only_wt st st' \<longleftrightarrow>
     verbose_wt st' = verbose_wt st \<and>
     wait_for_all_children st' = wait_for_all_children st \<and>
     terminate_all_children_after_command_terminated st' =
       terminate_all_children_after_command_terminated st \<and>
     command_pid_wt st' = command_pid_wt st \<and>
     shutdown_in_progress_wt st' = shutdown_in_progress_wt st \<and>
     shutdown_signal st' = shutdown_signal st \<and>
     actions (effects_wt st') = actions (effects_wt st)"

section \<open>Sample processes and states\<close>

text \<open>Concrete inputs on which the results below are exercised: a process that leads its
  group and one that does not, and states before and during a shutdown.\<close>

definition leader_proc :: proc where
  "leader_proc = \<lparr>getpid = 100, getpgrp = 100, child_argv0 = ''/bin/sleep''\<rparr>"

definition follower_proc :: proc where
  "follower_proc = \<lparr>getpid = 100, getpgrp = 77, child_argv0 = ''/bin/sleep''\<rparr>"

definition quiet_state :: state where
  "quiet_state = \<lparr>verbose = 0, command_pid = 101, shutdown_in_progress = 0, effects = []\<rparr>"

definition verbose_state :: state where
  "verbose_state = \<lparr>verbose = 1, command_pid = 101, shutdown_in_progress = 0, effects = []\<rparr>"

definition default_config :: config where
  "default_config =
     \<lparr>verbose_lr = 0, fault_tolerant = 0, dont_reap = 0,
      wait_for_all_sub_processes = 0, wait_forever = 0\<rparr>"

definition verbose_config :: config where
  "verbose_config =
     \<lparr>verbose_lr = 1, fault_tolerant = 0, dont_reap = 0,
      wait_for_all_sub_processes = 1, wait_forever = 0\<rparr>"

definition terminating_state :: state where
  "terminating_state =
     \<lparr>verbose = 0, command_pid = 101, shutdown_in_progress = 1,
      effects = [Kill 0 SIGTERM, Alarm 5]\<rparr>"

definition no_reap_config :: config where
  "no_reap_config =
     \<lparr>verbose_lr = 0, fault_tolerant = 0, dont_reap = 1,
      wait_for_all_sub_processes = 0, wait_forever = 0\<rparr>"

definition wait_all_config :: config where
  "wait_all_config =
     \<lparr>verbose_lr = 0, fault_tolerant = 0, dont_reap = 0,
      wait_for_all_sub_processes = 1, wait_forever = 0\<rparr>"

definition wait_forever_config :: config where
  "wait_forever_config =
     \<lparr>verbose_lr = 0, fault_tolerant = 0, dont_reap = 0,
      wait_for_all_sub_processes = 0, wait_forever = 1\<rparr>"

definition state_wt_with :: "int \<Rightarrow> int \<Rightarrow> state_wt" where
  "state_wt_with w t =
     \<lparr>verbose_wt = 0, wait_for_all_children = w,
      terminate_all_children_after_command_terminated = t, command_pid_wt = 101,
      shutdown_in_progress_wt = 0, shutdown_signal = - 1, effects_wt = []\<rparr>"

section \<open>Auxiliary facts\<close>

subsection \<open>Wait statuses\<close>

lemma WTERMSIG_range: "0 \<le> WTERMSIG s \<and> WTERMSIG s \<le> 127"
  unfolding WTERMSIG_def by simp

lemma signed_char_cast: 
  "0 \<le> x \<Longrightarrow> x \<le> 127 \<Longrightarrow> signed_take_bit 7 (x + 1::int) = (if x = 127 then - 128 else x + 1)"
  by (auto simp: signed_take_bit_int_eq_self_iff)

lemma WIFSIGNALED_iff: "WIFSIGNALED s \<longleftrightarrow> 1 \<le> WTERMSIG s \<and> WTERMSIG s \<le> 126"
proof -
  have r: "0 \<le> WTERMSIG s" "WTERMSIG s \<le> 127" using WTERMSIG_range by auto
  show ?thesis
    unfolding WIFSIGNALED_def WTERMSIG_def [symmetric]
    using r by (auto simp: signed_char_cast drop_bit_eq_div)
qed

lemma WIFEXITED_not_WIFSIGNALED: "WIFEXITED s \<Longrightarrow> \<not> WIFSIGNALED s"
  by (simp add: WIFSIGNALED_iff WIFEXITED_def)



lemma exit_status_failure: "exit_status (- 1) = 255"
  by (simp add: exit_status_def)

subsection \<open>Logging changes nothing but the log\<close>

lemma log_only_refl [simp]: "log_only st st"
  by (simp add: log_only_def)

lemma log_only_trans: "log_only a b \<Longrightarrow> log_only b c \<Longrightarrow> log_only a c"
  by (simp add: log_only_def)

lemma log_only_WRITE_LITERAL_STRING: "log_only st (WRITE_LITERAL_STRING s st)"
  by (simp add: log_only_def WRITE_LITERAL_STRING_def actions_def)

lemma log_only_LOG: "log_only st (LOG m st)"
  by (simp add: LOG_def log_only_WRITE_LITERAL_STRING)

lemma log_only_LOGf: "log_only st (LOGf f as st)"
  by (simp add: log_only_def LOGf_def WRITE_LITERAL_STRING_def actions_def)

lemma log_only_VERBOSE: "log_only st (VERBOSE m st)"
  by (simp add: VERBOSE_def log_only_LOG)

lemma log_only_VERBOSEf: "log_only st (VERBOSEf f as st)"
  by (simp add: VERBOSEf_def log_only_LOGf)

lemma log_only_write_num: "log_only st (write_num n st)"
proof (induction n st rule: write_num.induct)
  case (1 n st)
  show ?case
  proof (cases "n > 9")
    case True
    with 1 have "log_only st (write_num (n div 10) st)" by simp
    then show ?thesis
      using True by (subst write_num.simps) (simp add: log_only_def actions_def Let_def)
  next
    case False
    then show ?thesis
      by (subst write_num.simps) (simp add: log_only_def actions_def Let_def)
  qed
qed

lemmas log_only_step = log_only_trans [OF _ log_only_WRITE_LITERAL_STRING]
  log_only_trans [OF _ log_only_write_num]

lemma log_only_LOG_process_state: "log_only st (LOG_process_state c s st)"
  unfolding LOG_process_state_def Let_def
  by (auto intro!: log_only_step)

lemma VERBOSE_quiet: "verbose st = 0 \<Longrightarrow> VERBOSE m st = st"
  by (simp add: VERBOSE_def)

subsection \<open>Beginning a shutdown\<close>

lemma start_shutdown_again: "shutdown_in_progress st \<noteq> 0 \<Longrightarrow> log_only st (start_shutdown p st)"
  by (simp add: start_shutdown_def log_only_VERBOSE)

lemma start_shutdown_again_quiet:
  "shutdown_in_progress st \<noteq> 0 \<Longrightarrow> verbose st = 0 \<Longrightarrow> start_shutdown p st = st"
  by (simp add: start_shutdown_def VERBOSE_quiet)

lemma start_shutdown_first:
  assumes "shutdown_in_progress st = 0"
  shows "shutdown_in_progress (start_shutdown p st) = 1"
    and "verbose (start_shutdown p st) = verbose st"
    and "command_pid (start_shutdown p st) = command_pid st"
    and "actions (effects (start_shutdown p st)) = actions (effects st) @ shutdown_actions p"
  using assms
  by (simp_all add: start_shutdown_def shutdown_actions_def send_signal_to_all_children_def
      LOG_def VERBOSE_def WRITE_LITERAL_STRING_def actions_def Let_def)

subsection \<open>The signal handler and the loop of tinyreaper\<close>

lemma evolves_refl [simp]: "evolves p st st"
  by (simp add: evolves_def)

lemma evolves_trans: "evolves p a b \<Longrightarrow> evolves p b c \<Longrightarrow> evolves p a c"
  by (auto simp: evolves_def log_only_def shutdown_begun_def)

lemma log_only_evolves: "log_only a b \<Longrightarrow> evolves p a b"
  by (simp add: evolves_def)

lemma evolves_command_pid: "evolves p a b \<Longrightarrow> command_pid b = command_pid a"
  by (auto simp: evolves_def log_only_def shutdown_begun_def)

lemma evolves_in_progress:
  "evolves p a b \<Longrightarrow> shutdown_in_progress a \<noteq> 0 \<Longrightarrow> log_only a b"
  by (auto simp: evolves_def shutdown_begun_def)

lemma start_shutdown_evolves: "evolves p st (start_shutdown p st)"
proof (cases "shutdown_in_progress st = 0")
  case True
  then show ?thesis
    by (simp add: evolves_def shutdown_begun_def start_shutdown_first)
next
  case False
  then show ?thesis by (simp add: evolves_def start_shutdown_again)
qed

text \<open>The handler's verbose prologue.\<close>
lemma signal_handler_cases:
  assumes "\<not> (sig = SIGTERM \<and> si_pid = getpid p)"
  obtains st1 where "log_only st st1" and "verbose st = 0 \<longrightarrow> st1 = st"
    and "signal_handler p sig si_pid st =
          (if sig = SIGTERM \<or> sig = SIGINT \<or> sig = SIGQUIT then Running (start_shutdown p st1)
           else if sig = SIGALRM then handle_alarm st1
           else Running st1)"
proof (cases "verbose st = 0")
  case True
  show ?thesis
    by (rule that [of st]) (use True assms in \<open>auto simp: signal_handler_def\<close>)
next
  case False
  let ?st1 = "WRITE_LITERAL_STRING [CHR 0x0A]
                (write_num (nat sig) (WRITE_LITERAL_STRING ''Signal: '' st))"
  have "log_only st ?st1"
    by (intro log_only_step) simp
  then show ?thesis
    by (rule that [of ?st1]) (use False assms in \<open>auto simp: signal_handler_def Let_def\<close>)
qed

lemma handle_alarm_evolves: "log_only st (state_of (handle_alarm st))"
  by (simp add: handle_alarm_def log_only_LOG)

lemma signal_handler_evolves: "evolves p st (state_of (signal_handler p sig si_pid st))"
proof (cases "sig = SIGTERM \<and> si_pid = getpid p")
  case True
  then show ?thesis
    by (simp add: signal_handler_def log_only_evolves log_only_VERBOSE)
next
  case False
  then obtain st1 where l: "log_only st st1"
    and h: "signal_handler p sig si_pid st =
          (if sig = SIGTERM \<or> sig = SIGINT \<or> sig = SIGQUIT then Running (start_shutdown p st1)
           else if sig = SIGALRM then handle_alarm st1
           else Running st1)"
    by (rule signal_handler_cases)
  have "evolves p st1 (state_of (signal_handler p sig si_pid st))"
    unfolding h by (simp add: start_shutdown_evolves log_only_evolves handle_alarm_evolves)
  with l show ?thesis by (blast intro: evolves_trans log_only_evolves)
qed

lemma signal_handler_outcome:
  "(\<exists>st'. signal_handler p sig si_pid st = Running st') \<or>
   (\<exists>st'. signal_handler p sig si_pid st = Exits (- 1) st' \<and> sig = SIGALRM \<and>
          shutdown_in_progress st \<noteq> 0)"
proof (cases "sig = SIGTERM \<and> si_pid = getpid p")
  case True
  then show ?thesis by (simp add: signal_handler_def)
next
  case False
  then obtain st1 where l: "log_only st st1"
    and h: "signal_handler p sig si_pid st =
          (if sig = SIGTERM \<or> sig = SIGINT \<or> sig = SIGQUIT then Running (start_shutdown p st1)
           else if sig = SIGALRM then handle_alarm st1
           else Running st1)"
    by (rule signal_handler_cases)
  from l have "shutdown_in_progress st1 = shutdown_in_progress st"
    by (simp add: log_only_def)
  then show ?thesis
    unfolding h by (auto simp: handle_alarm_def)
qed

lemma loop_body_command:
  assumes "child > 0" "child = command_pid st"
  obtains st1 where "log_only st st1"
    and "loop_body p child status errno st cs = Continue (start_shutdown p st1) status"
proof -
  let ?a = "LOG_process_state child status st"
  let ?b = "VERBOSEf ''%s finished.'' [ArgStr (child_argv0 p)] ?a"
  have a: "log_only st ?a" by (rule log_only_LOG_process_state)
  then have "log_only st ?b" by (rule log_only_trans) (rule log_only_VERBOSEf)
  moreover have "command_pid ?a = command_pid st" using a by (simp add: log_only_def)
  then have "loop_body p child status errno st cs = Continue (start_shutdown p ?b) status"
    using assms by (simp add: loop_body_def Let_def)
  ultimately show ?thesis by (rule that)
qed

lemma loop_body_other:
  assumes "child > 0" "child \<noteq> command_pid st"
  shows "loop_body p child status errno st cs = Continue (LOG_process_state child status st) cs"
proof -
  have "command_pid (LOG_process_state child status st) = command_pid st"
    using log_only_LOG_process_state [of st child status] by (simp add: log_only_def)
  then show ?thesis using assms by (simp add: loop_body_def Let_def)
qed

lemma loop_body_no_child:
  "\<not> child > 0 \<Longrightarrow> child = - 1 \<and> errno = ECHILD \<Longrightarrow>
     loop_body p child status errno st cs = Break (VERBOSE ''all child processes terminated.'' st)"
  by (simp add: loop_body_def)

lemma loop_body_retry:
  "\<not> child > 0 \<Longrightarrow> \<not> (child = - 1 \<and> errno = ECHILD) \<Longrightarrow>
     loop_body p child status errno st cs = Continue st cs"
  by (simp add: loop_body_def)

lemma loop_body_Continue:
  assumes "loop_body p child status errno st cs = Continue st' cs'"
  shows "evolves p st st'"
    and "cs' = (if child > 0 \<and> child = command_pid st then status else cs)"
    and "\<not> is_no_child (Wait child status errno)"
proof -
  consider (cmd) "child > 0" "child = command_pid st"
    | (other) "child > 0" "child \<noteq> command_pid st"
    | (nochild) "\<not> child > 0" "child = - 1 \<and> errno = ECHILD"
    | (retry) "\<not> child > 0" "\<not> (child = - 1 \<and> errno = ECHILD)"
    by blast
  then have "evolves p st st' \<and> cs' = (if child > 0 \<and> child = command_pid st then status else cs)
     \<and> \<not> is_no_child (Wait child status errno)"
  proof cases
    case cmd
    then obtain st1 where "log_only st st1"
      and "loop_body p child status errno st cs = Continue (start_shutdown p st1) status"
      by (rule loop_body_command)
    with assms cmd show ?thesis
      by (auto intro: evolves_trans log_only_evolves start_shutdown_evolves)
  next
    case other
    with assms show ?thesis
      by (auto simp: loop_body_other intro: log_only_evolves log_only_LOG_process_state)
  next
    case nochild
    with assms show ?thesis by (simp add: loop_body_no_child)
  next
    case retry
    with assms show ?thesis by (auto simp: loop_body_retry)
  qed
  then show "evolves p st st'"
    and "cs' = (if child > 0 \<and> child = command_pid st then status else cs)"
    and "\<not> is_no_child (Wait child status errno)" by simp_all
qed

lemma loop_body_Break:
  assumes "loop_body p child status errno st cs = Break st'"
  shows "log_only st st'" and "is_no_child (Wait child status errno)"
proof -
  have nc: "\<not> child > 0 \<and> child = - 1 \<and> errno = ECHILD"
    using assms by (auto simp: loop_body_def Let_def split: if_splits)
  then show "is_no_child (Wait child status errno)" by simp
  from nc assms show "log_only st st'"
    by (auto simp: loop_body_no_child log_only_VERBOSE)
qed

lemma after_loop_Exits:
  "\<exists>st'. after_loop st cs =
     Exits (if (WIFEXITED cs \<and> WEXITSTATUS cs \<noteq> 0) \<or> WIFSIGNALED cs then - 1 else 0) st' \<and>
     log_only st st'"
  by (simp add: after_loop_def Let_def log_only_VERBOSEf)

lemma tinyreaper_loop_evolves: "evolves p st (state_of (tinyreaper_loop p es st cs))"
proof (induction es arbitrary: st cs)
  case Nil
  show ?case by simp
next
  case (Cons ev es)
  show ?case
  proof (cases ev)
    case (Signal sig si_pid)
    have h: "evolves p st (state_of (signal_handler p sig si_pid st))"
      by (rule signal_handler_evolves)
    show ?thesis
    proof (cases "signal_handler p sig si_pid st")
      case (Running st1)
      with h have "evolves p st st1" by simp
      moreover have "evolves p st1 (state_of (tinyreaper_loop p es st1 cs))" by (rule Cons.IH)
      ultimately show ?thesis using Signal Running by (auto intro: evolves_trans)
    qed (use h Signal in auto)
  next
    case (Wait child status errno)
    show ?thesis
    proof (cases "loop_body p child status errno st cs")
      case (Continue st1 cs1)
      then have "evolves p st st1" by (rule loop_body_Continue)
      moreover have "evolves p st1 (state_of (tinyreaper_loop p es st1 cs1))" by (rule Cons.IH)
      ultimately show ?thesis using Wait Continue by (auto intro: evolves_trans)
    next
      case (Break st1)
      then have "log_only st st1" by (rule loop_body_Break)
      moreover obtain st2 rc where "after_loop st1 cs = Exits rc st2" "log_only st1 st2"
        using after_loop_Exits [of st1 cs] by blast
      ultimately show ?thesis using Wait Break
        by (auto intro: log_only_evolves log_only_trans)
    qed
  qed
qed

text \<open>Once \<open>wait\<close> reports that no child is left, the process exits.\<close>

lemma tinyreaper_loop_exits:
  "\<exists>ev\<in>set es. is_no_child ev \<Longrightarrow> \<exists>rc st'. tinyreaper_loop p es st cs = Exits rc st'"
proof (induction es arbitrary: st cs)
  case Nil
  then show ?case by simp
next
  case (Cons ev es)
  show ?case
  proof (cases ev)
    case (Signal sig si_pid)
    with Cons.prems have "\<exists>ev\<in>set es. is_no_child ev" by simp
    then have ih: "\<And>st cs. \<exists>rc st'. tinyreaper_loop p es st cs = Exits rc st'"
      by (rule Cons.IH)
    from signal_handler_outcome [of p sig si_pid st] show ?thesis
      using Signal ih by auto
  next
    case (Wait child status errno)
    show ?thesis
    proof (cases "loop_body p child status errno st cs")
      case (Continue st1 cs1)
      then have "\<not> is_no_child (Wait child status errno)" by (rule loop_body_Continue)
      with Cons.prems Wait have "\<exists>ev\<in>set es. is_no_child ev" by auto
      then have "\<exists>rc st'. tinyreaper_loop p es st1 cs1 = Exits rc st'" by (rule Cons.IH)
      then show ?thesis using Wait Continue by simp
    next
      case (Break st1)
      then show ?thesis using Wait after_loop_Exits [of st1 cs] by auto
    qed
  qed
qed

text \<open>The exit code of a run, and what happens before \<open>wait\<close> first reports that no
  child is left.\<close>

lemma signal_handler_Running:
  "signal_handler p sig si_pid st = Running st1 \<Longrightarrow> evolves p st st1"
  using signal_handler_evolves [of p st sig si_pid] by simp

lemma tinyreaper_loop_exit_code:
  assumes "\<forall>ev\<in>set es. \<not> reaps (command_pid st) ev"
    and "tinyreaper_loop p es st cs = Exits rc st'"
  shows "(rc = - 1 \<and> (\<exists>ev\<in>set es. is_alarm ev)) \<or>
         rc = (if (WIFEXITED cs \<and> WEXITSTATUS cs \<noteq> 0) \<or> WIFSIGNALED cs then - 1 else 0)"
  using assms
proof (induction es arbitrary: st)
  case Nil
  then show ?case by simp
next
  case (Cons ev es)
  show ?case
  proof (cases ev)
    case (Signal sig si_pid)
    from signal_handler_outcome [of p sig si_pid st] show ?thesis
    proof (elim disjE exE conjE)
      fix st1 assume r: "signal_handler p sig si_pid st = Running st1"
      then have "command_pid st1 = command_pid st"
        by (intro evolves_command_pid signal_handler_Running)
      with Cons.prems have "\<forall>ev\<in>set es. \<not> reaps (command_pid st1) ev" by simp
      moreover from Cons.prems Signal r have "tinyreaper_loop p es st1 cs = Exits rc st'" by simp
      ultimately have "(rc = - 1 \<and> (\<exists>ev\<in>set es. is_alarm ev)) \<or>
         rc = (if (WIFEXITED cs \<and> WEXITSTATUS cs \<noteq> 0) \<or> WIFSIGNALED cs then - 1 else 0)"
        by (rule Cons.IH)
      then show ?thesis by auto
    next
      fix st1 assume "signal_handler p sig si_pid st = Exits (- 1) st1" "sig = SIGALRM"
      with Cons.prems Signal show ?thesis by simp
    qed
  next
    case (Wait child status errno)
    with Cons.prems have nr: "\<not> (child > 0 \<and> child = command_pid st)" by simp
    show ?thesis
    proof (cases "loop_body p child status errno st cs")
      case (Continue st1 cs1)
      then have "evolves p st st1"
        and "cs1 = (if child > 0 \<and> child = command_pid st then status else cs)"
        by (rule loop_body_Continue)+
      with nr have c: "command_pid st1 = command_pid st" "cs1 = cs"
        by (auto simp: evolves_command_pid)
      with Cons.prems have "\<forall>ev\<in>set es. \<not> reaps (command_pid st1) ev" by simp
      moreover from Cons.prems Wait Continue c
      have "tinyreaper_loop p es st1 cs = Exits rc st'" by simp
      ultimately have "(rc = - 1 \<and> (\<exists>ev\<in>set es. is_alarm ev)) \<or>
         rc = (if (WIFEXITED cs \<and> WEXITSTATUS cs \<noteq> 0) \<or> WIFSIGNALED cs then - 1 else 0)"
        by (rule Cons.IH)
      then show ?thesis by auto
    next
      case (Break st1)
      with Cons.prems Wait after_loop_Exits [of st1 cs] show ?thesis by auto
    qed
  qed
qed

lemma tinyreaper_loop_before_no_child:
  assumes "\<forall>ev\<in>set pre. \<not> is_no_child ev"
  shows "(\<exists>st'. tinyreaper_loop p (pre @ rest) st cs = Exits (- 1) st' \<and>
               (\<exists>ev\<in>set pre. is_alarm ev)) \<or>
         (\<exists>st1 cs1. evolves p st st1 \<and>
               ((\<exists>ev\<in>set pre. reaps (command_pid st) ev) \<or> cs1 = cs) \<and>
               tinyreaper_loop p (pre @ rest) st cs = tinyreaper_loop p rest st1 cs1)"
  using assms
proof (induction pre arbitrary: st cs)
  case Nil
  show ?case by (auto intro: exI [of _ st])
next
  case (Cons ev pre)
  then have nn: "\<forall>ev\<in>set pre. \<not> is_no_child ev" by simp
  show ?case
  proof (cases ev)
    case (Signal sig si_pid)
    from signal_handler_outcome [of p sig si_pid st] show ?thesis
    proof (elim disjE exE conjE)
      fix st1 assume r: "signal_handler p sig si_pid st = Running st1"
      then have e: "evolves p st st1" by (rule signal_handler_Running)
      then have c: "command_pid st1 = command_pid st" by (rule evolves_command_pid)
      from Cons.IH [OF nn, of st1 cs] consider
        (exit) st' where "tinyreaper_loop p (pre @ rest) st1 cs = Exits (- 1) st'"
          "\<exists>ev\<in>set pre. is_alarm ev"
        | (cont) st2 cs2 where "evolves p st1 st2"
          "(\<exists>ev\<in>set pre. reaps (command_pid st1) ev) \<or> cs2 = cs"
          "tinyreaper_loop p (pre @ rest) st1 cs = tinyreaper_loop p rest st2 cs2"
        by blast
      then show ?thesis
      proof cases
        case exit
        with Signal r show ?thesis by auto
      next
        case cont
        with Signal r e c
        have "evolves p st st2 \<and>
              ((\<exists>ev\<in>set (ev # pre). reaps (command_pid st) ev) \<or> cs2 = cs) \<and>
              tinyreaper_loop p ((ev # pre) @ rest) st cs = tinyreaper_loop p rest st2 cs2"
          by (auto intro: evolves_trans)
        then show ?thesis by blast
      qed
    next
      fix st1 assume "signal_handler p sig si_pid st = Exits (- 1) st1" "sig = SIGALRM"
      with Signal show ?thesis by simp
    qed
  next
    case (Wait child status errno)
    show ?thesis
    proof (cases "loop_body p child status errno st cs")
      case (Continue st1 cs1)
      then have e: "evolves p st st1"
        and s: "cs1 = (if child > 0 \<and> child = command_pid st then status else cs)"
        by (rule loop_body_Continue)+
      from e have c: "command_pid st1 = command_pid st" by (rule evolves_command_pid)
      from Cons.IH [OF nn, of st1 cs1] consider
        (exit) st' where "tinyreaper_loop p (pre @ rest) st1 cs1 = Exits (- 1) st'"
          "\<exists>ev\<in>set pre. is_alarm ev"
        | (cont) st2 cs2 where "evolves p st1 st2"
          "(\<exists>ev\<in>set pre. reaps (command_pid st1) ev) \<or> cs2 = cs1"
          "tinyreaper_loop p (pre @ rest) st1 cs1 = tinyreaper_loop p rest st2 cs2"
        by blast
      then show ?thesis
      proof cases
        case exit
        with Wait Continue show ?thesis by auto
      next
        case cont
        with Wait Continue e c s
        have "evolves p st st2 \<and>
              ((\<exists>ev\<in>set (ev # pre). reaps (command_pid st) ev) \<or> cs2 = cs) \<and>
              tinyreaper_loop p ((ev # pre) @ rest) st cs = tinyreaper_loop p rest st2 cs2"
          by (auto intro: evolves_trans split: if_splits)
        then show ?thesis by blast
      qed
    next
      case (Break st1)
      then have "is_no_child (Wait child status errno)" by (rule loop_body_Break)
      with Cons.prems Wait show ?thesis by simp
    qed
  qed
qed

subsection \<open>The loop of little-reaper\<close>

lemma return_code_exited:
  "WIFEXITED status \<Longrightarrow> return_code_from_process_status status = WEXITSTATUS status"
  by (simp add: return_code_from_process_status_def WIFEXITED_not_WIFSIGNALED)

lemma return_code_signaled:
  "WIFSIGNALED status \<Longrightarrow> return_code_from_process_status status = - 1"
  by (simp add: return_code_from_process_status_def)

lemma actions_Printf [simp]:
  "actions (out @ [Printf f as]) = actions out"
  "actions (out @ [Printf f as, Printf g bs]) = actions out"
  by (simp_all add: actions_def)

lemma VERBOSEf_lr_frame [simp]:
  "command_status (VERBOSEf_lr cfg f as ls) = command_status ls"
  "command_terminated (VERBOSEf_lr cfg f as ls) = command_terminated ls"
  "no_child_left (VERBOSEf_lr cfg f as ls) = no_child_left ls"
  "actions (printed (VERBOSEf_lr cfg f as ls)) = actions (printed ls)"
  by (simp_all add: VERBOSEf_lr_def LOGf_lr_def)

lemma VERBOSE_lr_frame [simp]:
  "command_status (VERBOSE_lr cfg m ls) = command_status ls"
  "command_terminated (VERBOSE_lr cfg m ls) = command_terminated ls"
  "no_child_left (VERBOSE_lr cfg m ls) = no_child_left ls"
  "actions (printed (VERBOSE_lr cfg m ls)) = actions (printed ls)"
  by (simp_all add: VERBOSE_lr_def LOG_lr_def)

lemma reap_lr_finishes:
  assumes "finishes command (child, status, errno)"
  shows "command_status (reap_lr cfg command child status errno ls) = status"
    and "command_terminated (reap_lr cfg command child status errno ls) = 1"
    and "no_child_left (reap_lr cfg command child status errno ls) = no_child_left ls"
    and "actions (printed (reap_lr cfg command child status errno ls)) = actions (printed ls)"
  using assms by (simp_all add: reap_lr_def Let_def)

lemma reap_lr_other:
  assumes "\<not> finishes command (child, status, errno)"
  shows "command_status (reap_lr cfg command child status errno ls) = command_status ls"
    and "command_terminated (reap_lr cfg command child status errno ls) = command_terminated ls"
    and "actions (printed (reap_lr cfg command child status errno ls)) = actions (printed ls)"
  using assms by (auto simp: reap_lr_def Let_def)

lemma little_reaper_default_finishes:
  assumes "wait_forever cfg = 0" "wait_for_all_sub_processes cfg = 0"
    and "finishes command (child, status, errno)"
  shows "\<exists>ls'. little_reaper_loop cfg command ((child, status, errno) # rest) ls =
            Exits (return_code_from_process_status status) ls' \<and>
          actions (printed ls') = actions (printed ls)"
  using assms(1,2) reap_lr_finishes [OF assms(3), of cfg ls]
  by (simp add: policy_lr_def)

lemma little_reaper_default_before:
  assumes "wait_forever cfg = 0" "wait_for_all_sub_processes cfg = 0"
    and "\<forall>w\<in>set pre. \<not> finishes command w"
    and "command_terminated ls = 0"
  shows "\<exists>ls1. little_reaper_loop cfg command (pre @ rest) ls =
            little_reaper_loop cfg command rest ls1 \<and>
          command_terminated ls1 = 0 \<and> actions (printed ls1) = actions (printed ls)"
  using assms(3,4)
proof (induction pre arbitrary: ls)
  case Nil
  then show ?case by auto
next
  case (Cons w pre)
  obtain child status errno where w: "w = (child, status, errno)" by (cases w) auto
  let ?ls = "reap_lr cfg command child status errno ls"
  from Cons.prems w have nf: "\<not> finishes command (child, status, errno)" by simp
  then have t: "command_terminated ?ls = 0" "actions (printed ?ls) = actions (printed ls)"
    using Cons.prems reap_lr_other [OF nf, of cfg ls] by simp_all
  with assms(1,2) have "policy_lr cfg ?ls = Running ?ls" by (simp add: policy_lr_def)
  then have "little_reaper_loop cfg command ((w # pre) @ rest) ls =
               little_reaper_loop cfg command (pre @ rest) ?ls"
    using w by simp
  moreover from Cons.prems t have "\<exists>ls1. little_reaper_loop cfg command (pre @ rest) ?ls =
            little_reaper_loop cfg command rest ls1 \<and>
          command_terminated ls1 = 0 \<and> actions (printed ls1) = actions (printed ?ls)"
    by (intro Cons.IH) simp_all
  ultimately show ?case using t by auto
qed

lemma little_reaper_loop_exit_code:
  assumes "\<forall>w\<in>set ws. finishes command w \<longrightarrow> Q (fst (snd w))"
    and "command_terminated ls \<noteq> 0 \<longrightarrow> Q (command_status ls)"
    and "little_reaper_loop cfg command ws ls = Exits rc ls'"
  shows "\<exists>status. Q status \<and> rc = return_code_from_process_status status"
  using assms
proof (induction ws arbitrary: ls)
  case Nil
  then show ?case by simp
next
  case (Cons w ws)
  obtain child status errno where w: "w = (child, status, errno)" by (cases w) auto
  let ?ls = "reap_lr cfg command child status errno ls"
  have q: "command_terminated ?ls \<noteq> 0 \<longrightarrow> Q (command_status ?ls)"
  proof (cases "finishes command (child, status, errno)")
    case True
    with Cons.prems(1) w have "Q status" by simp
    with True show ?thesis by (simp add: reap_lr_finishes)
  next
    case False
    with Cons.prems(2) show ?thesis by (simp add: reap_lr_other)
  qed
  show ?case
  proof (cases "policy_lr cfg ?ls")
    case (Running ls1)
    then have "ls1 = ?ls" by (auto simp: policy_lr_def infinite_sleep_def split: if_splits)
    with Running Cons.prems w q show ?thesis by (intro Cons.IH [of ?ls]) simp_all
  next
    case (Exits rc1 ls1)
    then have "rc1 = return_code_from_process_status (command_status ?ls)"
      "command_terminated ?ls \<noteq> 0"
      by (auto simp: policy_lr_def infinite_sleep_def split: if_splits)
    with Exits Cons.prems(3) w q show ?thesis by auto
  next
    case (Aborts ls1)
    with Cons.prems(3) w show ?thesis by simp
  next
    case (SleepsForever ls1)
    with Cons.prems(3) w show ?thesis by simp
  qed
qed

subsection \<open>Whole runs\<close>

lemma little_reaper_main_default:
  assumes "dont_reap cfg = 0" "wait_forever cfg = 0" "wait_for_all_sub_processes cfg = 0"
    and "\<forall>w\<in>set pre. \<not> finishes command w"
    and "finishes command (child, status, errno)"
  shows "\<exists>ls'. little_reaper_main cfg command (pre @ (child, status, errno) # post) out =
            Exits (return_code_from_process_status status) ls' \<and>
          actions (printed ls') = actions out"
proof -
  let ?ls = "\<lparr>command_status = 0, command_terminated = 0, no_child_left = 0, printed = out\<rparr>"
  obtain ls1 where a: "little_reaper_loop cfg command (pre @ (child, status, errno) # post) ?ls =
       little_reaper_loop cfg command ((child, status, errno) # post) ls1"
    and b: "actions (printed ls1) = actions (printed ?ls)"
    using little_reaper_default_before [OF assms(2,3,4), of ?ls "(child, status, errno) # post"]
    by auto
  obtain ls' where "little_reaper_loop cfg command ((child, status, errno) # post) ls1 =
       Exits (return_code_from_process_status status) ls'"
    and "actions (printed ls') = actions (printed ls1)"
    using little_reaper_default_finishes [OF assms(2,3,5), of post ls1] by auto
  with a b assms(1) show ?thesis by (simp add: little_reaper_main_def)
qed

lemma tinyreaper_main_observed:
  assumes pos: "cpid > 0"
    and pre: "\<forall>ev\<in>set pre. \<not> is_no_child ev"
    and post: "\<forall>ev\<in>set post. \<not> reaps cpid ev"
  shows "(tinyreaper_main p cpid (pre @ Wait cpid status errno # post) st = Exits rc st' \<longrightarrow>
           (rc = - 1 \<and> (\<exists>ev\<in>set (pre @ post). is_alarm ev)) \<or>
           rc = (if (WIFEXITED status \<and> WEXITSTATUS status \<noteq> 0) \<or> WIFSIGNALED status
                 then - 1 else 0)) \<and>
         ((\<exists>ev\<in>set post. is_no_child ev) \<longrightarrow>
           (\<exists>rc' st''. tinyreaper_main p cpid (pre @ Wait cpid status errno # post) st =
               Exits rc' st''))"
proof -
  let ?st = "st\<lparr>command_pid := cpid\<rparr>"
  let ?run = "tinyreaper_main p cpid (pre @ Wait cpid status errno # post) st"
  have run: "?run = tinyreaper_loop p (pre @ Wait cpid status errno # post) ?st 0"
    by (simp add: tinyreaper_main_def)
  from tinyreaper_loop_before_no_child [OF pre, of p "Wait cpid status errno # post" ?st 0]
  consider (exit) st1 where "?run = Exits (- 1) st1" "\<exists>ev\<in>set pre. is_alarm ev"
    | (cont) st1 cs1 where "evolves p ?st st1"
        "?run = tinyreaper_loop p (Wait cpid status errno # post) st1 cs1"
    unfolding run by blast
  then show ?thesis
  proof cases
    case exit
    then show ?thesis by auto
  next
    case cont
    from cont(1) have c: "command_pid st1 = cpid" by (simp add: evolves_command_pid)
    with pos obtain st2 where l: "log_only st1 st2"
      and b: "loop_body p cpid status errno st1 cs1 = Continue (start_shutdown p st2) status"
      by (metis loop_body_command)
    let ?st3 = "start_shutdown p st2"
    from l c have "command_pid ?st3 = cpid"
      using start_shutdown_evolves [of p st2] by (simp add: evolves_command_pid log_only_def)
    with post have nr: "\<forall>ev\<in>set post. \<not> reaps (command_pid ?st3) ev" by simp
    from cont(2) b have eq: "?run = tinyreaper_loop p post ?st3 status" by simp
    have "?run = Exits rc st' \<longrightarrow>
           (rc = - 1 \<and> (\<exists>ev\<in>set (pre @ post). is_alarm ev)) \<or>
           rc = (if (WIFEXITED status \<and> WEXITSTATUS status \<noteq> 0) \<or> WIFSIGNALED status
                 then - 1 else 0)"
      using tinyreaper_loop_exit_code [OF nr, of p status rc st'] unfolding eq by auto
    moreover have "(\<exists>ev\<in>set post. is_no_child ev) \<longrightarrow> (\<exists>rc' st''. ?run = Exits rc' st'')"
      unfolding eq using tinyreaper_loop_exits by blast
    ultimately show ?thesis by simp
  qed
qed

lemma status_zero: "WIFEXITED 0" "WEXITSTATUS 0 = 0" "\<not> WIFSIGNALED 0"
  by (simp_all add: WIFEXITED_def WTERMSIG_def WEXITSTATUS_def WIFSIGNALED_def)

lemma tinyreaper_loop_leaves_on_no_child:
  assumes "\<forall>ev\<in>set es. \<not> is_no_child ev"
  shows "(\<exists>st'. tinyreaper_loop p es st cs = Exits (- 1) st' \<and> (\<exists>ev\<in>set es. is_alarm ev)) \<or>
         (\<exists>st'. tinyreaper_loop p es st cs = Running st')"
  using tinyreaper_loop_before_no_child [OF assms, of p "[]" st cs] by auto

text \<open>Where handlers run only between two passes of the loop, beginning a shutdown is
  idempotent: with the flag set, \<open>start_shutdown\<close> and the whole rest of the run change
  nothing but the log, and a run that starts with the flag clear performs the broadcast and
  the alarm not at all or once.\<close>
lemma start_shutdown_idempotent_between_passes:
  "(shutdown_in_progress st \<noteq> 0 \<longrightarrow>
      log_only st (start_shutdown p st) \<and>
      (verbose st = 0 \<longrightarrow> start_shutdown p st = st) \<and>
      log_only st (state_of (tinyreaper_loop p es st cs))) \<and>
   (shutdown_in_progress st = 0 \<longrightarrow>
      actions (effects (state_of (tinyreaper_loop p es st cs))) = actions (effects st) \<or>
      actions (effects (state_of (tinyreaper_loop p es st cs))) =
        actions (effects st) @ shutdown_actions p)"
proof (intro conjI impI)
  assume "shutdown_in_progress st \<noteq> 0"
  then show "log_only st (state_of (tinyreaper_loop p es st cs))"
    by (rule evolves_in_progress [OF tinyreaper_loop_evolves])
next
  show "actions (effects (state_of (tinyreaper_loop p es st cs))) = actions (effects st) \<or>
      actions (effects (state_of (tinyreaper_loop p es st cs))) =
        actions (effects st) @ shutdown_actions p"
    using tinyreaper_loop_evolves [of p st es cs]
    by (auto simp: evolves_def log_only_def shutdown_begun_def)
qed (simp_all add: start_shutdown_again start_shutdown_again_quiet)

subsection \<open>A signal inside \<open>start_shutdown\<close>\<close>

lemma start_shutdown_split:
  "start_shutdown p st =
     (if shutdown_in_progress st \<noteq> 0 then VERBOSE ''Shutdown already in progress.'' st
      else start_shutdown_rest p st)"
  by (simp add: start_shutdown_def start_shutdown_rest_def)

lemma start_shutdown_rest_actions:
  "shutdown_in_progress (start_shutdown_rest p st) = 1"
  "verbose (start_shutdown_rest p st) = verbose st"
  "command_pid (start_shutdown_rest p st) = command_pid st"
  "actions (effects (start_shutdown_rest p st)) = actions (effects st) @ shutdown_actions p"
  by (simp_all add: start_shutdown_rest_def shutdown_actions_def send_signal_to_all_children_def
      LOG_def VERBOSE_def WRITE_LITERAL_STRING_def actions_def Let_def)

lemma signal_handler_begins:
  assumes "(sig = SIGTERM \<and> si_pid \<noteq> getpid p) \<or> sig = SIGINT \<or> sig = SIGQUIT"
    and "shutdown_in_progress st = 0"
  shows "\<exists>st'. signal_handler p sig si_pid st = Running st' \<and> shutdown_begun p st st'"
proof -
  from assms(1) have ne: "\<not> (sig = SIGTERM \<and> si_pid = getpid p)"
    by (auto simp: SIGTERM_def SIGINT_def SIGQUIT_def)
  from assms(1) have t: "sig = SIGTERM \<or> sig = SIGINT \<or> sig = SIGQUIT" by blast
  obtain st1 where l: "log_only st st1"
    and h: "signal_handler p sig si_pid st = Running (start_shutdown p st1)"
    using signal_handler_cases [OF ne, of st] t by auto
  from l assms(2) have z: "shutdown_in_progress st1 = 0" by (simp add: log_only_def)
  show ?thesis
    using h l assms(2) start_shutdown_first [OF z, of p]
    by (simp add: shutdown_begun_def log_only_def)
qed

subsection \<open>The supervisor with \<open>-w\<close> and \<open>-t\<close>\<close>

lemma log_only_wt_refl [simp]: "log_only_wt st st"
  by (simp add: log_only_wt_def)

lemma log_only_wt_trans: "log_only_wt a b \<Longrightarrow> log_only_wt b c \<Longrightarrow> log_only_wt a c"
  by (simp add: log_only_wt_def)

lemma log_only_WRITE_LITERAL_STRING_wt: "log_only_wt st (WRITE_LITERAL_STRING_wt s st)"
  by (simp add: log_only_wt_def WRITE_LITERAL_STRING_wt_def actions_def)

lemma log_only_VERBOSE_wt: "log_only_wt st (VERBOSE_wt m st)"
  by (simp add: VERBOSE_wt_def LOG_wt_def log_only_WRITE_LITERAL_STRING_wt)

lemma log_only_VERBOSEf_wt: "log_only_wt st (VERBOSEf_wt f as st)"
  by (simp add: VERBOSEf_wt_def LOGf_wt_def log_only_wt_def actions_def)

lemma log_only_write_num_wt: "log_only_wt st (write_num_wt n st)"
proof (induction n st rule: write_num_wt.induct)
  case (1 n st)
  show ?case
  proof (cases "n > 9")
    case True
    with 1 have "log_only_wt st (write_num_wt (n div 10) st)" by simp
    then show ?thesis
      using True by (subst write_num_wt.simps) (simp add: log_only_wt_def actions_def Let_def)
  next
    case False
    then show ?thesis
      by (subst write_num_wt.simps) (simp add: log_only_wt_def actions_def Let_def)
  qed
qed

lemmas log_only_wt_step = log_only_wt_trans [OF _ log_only_WRITE_LITERAL_STRING_wt]
  log_only_wt_trans [OF _ log_only_write_num_wt]

lemma log_only_LOG_process_state_wt: "log_only_wt st (LOG_process_state_wt c s st)"
  unfolding LOG_process_state_wt_def Let_def
  by (auto intro!: log_only_wt_step)

lemma loop_body_wt_command:
  assumes "child > 0" "child = command_pid_wt st"
  shows "\<exists>st'. loop_body_wt p child status errno st cs =
            (if \<not> wait_for_all_children st \<noteq> 0 then Break_wt st' status
             else Continue_wt st' status) \<and>
          shutdown_in_progress_wt st' = shutdown_in_progress_wt st \<and>
          actions (effects_wt st') = actions (effects_wt st) @
            (if terminate_all_children_after_command_terminated st \<noteq> 0 \<and> getpgrp p = getpid p
             then [Kill 0 SIGTERM] else [])"
proof -
  let ?a = "LOG_process_state_wt child status st"
  let ?b = "VERBOSEf_wt ''%s finished.'' [ArgStr (child_argv0 p)] ?a"
  let ?c = "(if terminate_all_children_after_command_terminated ?b \<noteq> 0
             then send_signal_to_all_children_wt p SIGTERM ?b else ?b)"
  have a: "log_only_wt st ?a" by (rule log_only_LOG_process_state_wt)
  then have b: "log_only_wt st ?b" by (rule log_only_wt_trans) (rule log_only_VERBOSEf_wt)
  from a assms have "loop_body_wt p child status errno st cs =
      (if \<not> wait_for_all_children ?c \<noteq> 0 then Break_wt ?c status else Continue_wt ?c status)"
    by (simp add: loop_body_wt_def Let_def log_only_wt_def)
  moreover from b have "wait_for_all_children ?c = wait_for_all_children st"
    "shutdown_in_progress_wt ?c = shutdown_in_progress_wt st"
    "actions (effects_wt ?c) = actions (effects_wt st) @
            (if terminate_all_children_after_command_terminated st \<noteq> 0 \<and> getpgrp p = getpid p
             then [Kill 0 SIGTERM] else [])"
    by (simp_all add: log_only_wt_def send_signal_to_all_children_wt_def actions_def)
  ultimately show ?thesis by (intro exI [of _ ?c]) simp
qed

lemma after_loop_wt_Exits:
  "\<exists>st'. after_loop_wt st cs =
     Exits (if (WIFEXITED cs \<and> WEXITSTATUS cs \<noteq> 0) \<or> WIFSIGNALED cs then - 1 else 0) st' \<and>
     log_only_wt st st'"
  by (simp add: after_loop_wt_def Let_def log_only_VERBOSEf_wt)

subsection \<open>More on the loop of little-reaper\<close>

lemma little_reaper_loop_append:
  "little_reaper_loop cfg command (xs @ ys) ls =
     (case little_reaper_loop cfg command xs ls of
        Running ls' \<Rightarrow> little_reaper_loop cfg command ys ls'
      | Exits rc ls' \<Rightarrow> Exits rc ls'
      | Aborts ls' \<Rightarrow> Aborts ls'
      | SleepsForever ls' \<Rightarrow> SleepsForever ls')"
proof (induction xs arbitrary: ls)
  case Nil
  show ?case by simp
next
  case (Cons w xs)
  obtain child status errno where w: "w = (child, status, errno)" by (cases w) auto
  show ?case
    by (cases "policy_lr cfg (reap_lr cfg command child status errno ls)")
      (simp_all add: w Cons.IH)
qed

lemma policy_lr_Running: "policy_lr cfg ls = Running ls' \<Longrightarrow> ls' = ls"
  by (auto simp: policy_lr_def infinite_sleep_def split: if_splits)

lemma policy_lr_continues:
  "policy_lr cfg ls = Running ls \<longleftrightarrow>
     (if wait_forever cfg \<noteq> 0 \<or> wait_for_all_sub_processes cfg \<noteq> 0
      then no_child_left ls = 0 else command_terminated ls = 0)"
  by (auto simp: policy_lr_def infinite_sleep_def)

lemma policy_lr_initial: "policy_lr cfg (initial_loop_state out) = Running (initial_loop_state out)"
  by (simp add: policy_lr_continues initial_loop_state_def)

lemma little_reaper_loop_Running:
  assumes "little_reaper_loop cfg command pre ls = Running ls1"
    and "policy_lr cfg ls = Running ls"
  shows "policy_lr cfg ls1 = Running ls1"
  using assms
proof (induction pre arbitrary: ls)
  case Nil
  then show ?case by simp
next
  case (Cons w pre)
  obtain child status errno where w: "w = (child, status, errno)" by (cases w) auto
  let ?ls = "reap_lr cfg command child status errno ls"
  show ?case
  proof (cases "policy_lr cfg ?ls")
    case (Running ls2)
    then have "ls2 = ?ls" by (rule policy_lr_Running)
    with Running Cons.prems(1) w show ?thesis by (intro Cons.IH [of ?ls]) simp_all
  qed (use Cons.prems(1) w in simp_all)
qed

lemma reap_lr_failure:
  "\<not> child > 0 \<Longrightarrow> errno \<noteq> ECHILD \<Longrightarrow>
     reap_lr cfg command child status errno ls =
       VERBOSEf_lr cfg ''wait error (%d %s)'' [ArgInt errno, ArgStrerror errno] ls"
  by (simp add: reap_lr_def)

lemma reap_lr_no_child:
  assumes "fails_no_child (child, status, errno)"
  shows "no_child_left (reap_lr cfg command child status errno ls) = 1"
    and "command_terminated (reap_lr cfg command child status errno ls) = command_terminated ls"
    and "command_status (reap_lr cfg command child status errno ls) = command_status ls"
  using assms by (simp_all add: reap_lr_def)

lemma reap_lr_not_no_child:
  "\<not> fails_no_child (child, status, errno) \<Longrightarrow>
     no_child_left (reap_lr cfg command child status errno ls) = no_child_left ls"
  by (auto simp: reap_lr_def Let_def)

lemma reap_lr_terminated:
  "command_terminated ls \<noteq> 0 \<or> finishes command (child, status, errno) \<Longrightarrow>
     command_terminated (reap_lr cfg command child status errno ls) \<noteq> 0"
  by (auto simp: reap_lr_def Let_def)

lemma little_reaper_forever_never_exits:
  "wait_forever cfg \<noteq> 0 \<Longrightarrow> exit_code (little_reaper_loop cfg command ws ls) = None"
proof (induction ws arbitrary: ls)
  case Nil
  show ?case by simp
next
  case (Cons w ws)
  obtain child status errno where w: "w = (child, status, errno)" by (cases w) auto
  let ?ls = "reap_lr cfg command child status errno ls"
  from Cons.prems have "policy_lr cfg ?ls = Running ?ls \<or>
      (\<exists>l. policy_lr cfg ?ls = SleepsForever l)"
    by (simp add: policy_lr_def infinite_sleep_def)
  then show ?case using w Cons.IH [OF Cons.prems] by auto
qed

lemma little_reaper_waits_for_no_child:
  assumes "wait_forever cfg \<noteq> 0 \<or> wait_for_all_sub_processes cfg \<noteq> 0"
    and "no_child_left ls = 0"
    and "\<forall>w\<in>set ws. \<not> fails_no_child w"
  shows "\<exists>ls'. little_reaper_loop cfg command ws ls = Running ls' \<and> no_child_left ls' = 0 \<and>
           (command_terminated ls \<noteq> 0 \<or> (\<exists>w\<in>set ws. finishes command w) \<longrightarrow>
              command_terminated ls' \<noteq> 0)"
  using assms(2,3)
proof (induction ws arbitrary: ls)
  case Nil
  then show ?case by simp
next
  case (Cons w ws)
  obtain child status errno where w: "w = (child, status, errno)" by (cases w) auto
  let ?ls = "reap_lr cfg command child status errno ls"
  from Cons.prems w have n: "no_child_left ?ls = 0" by (simp add: reap_lr_not_no_child)
  with assms(1) have p: "policy_lr cfg ?ls = Running ?ls" by (simp add: policy_lr_continues)
  from Cons.prems n obtain ls' where r: "little_reaper_loop cfg command ws ?ls = Running ls'"
    and z: "no_child_left ls' = 0"
    and t: "command_terminated ?ls \<noteq> 0 \<or> (\<exists>w\<in>set ws. finishes command w) \<longrightarrow>
              command_terminated ls' \<noteq> 0"
    using Cons.IH [of ?ls] by auto
  have "command_terminated ls \<noteq> 0 \<or> (\<exists>w\<in>set (w # ws). finishes command w) \<longrightarrow>
          command_terminated ls' \<noteq> 0"
    using t w reap_lr_terminated [of ls command child status errno cfg] by auto
  with p r z w show ?case by simp
qed

lemma little_reaper_wait_all_exits:
  assumes cfg: "wait_forever cfg = 0" "wait_for_all_sub_processes cfg \<noteq> 0"
    and before: "\<forall>w\<in>set before. \<not> fails_no_child w" "\<exists>w\<in>set before. finishes command w"
    and nc: "fails_no_child nc"
    and init: "no_child_left ls = 0"
  shows "\<exists>rc ls'. little_reaper_loop cfg command (before @ nc # after) ls = Exits rc ls' \<and>
           little_reaper_loop cfg command (before @ [nc]) ls = Exits rc ls'"
proof -
  from cfg have "wait_forever cfg \<noteq> 0 \<or> wait_for_all_sub_processes cfg \<noteq> 0" by simp
  from little_reaper_waits_for_no_child [OF this init before(1), of command] before(2)
  obtain ls1 where r: "little_reaper_loop cfg command before ls = Running ls1"
    and z: "no_child_left ls1 = 0" and t: "command_terminated ls1 \<noteq> 0"
    by auto
  obtain child status errno where w: "nc = (child, status, errno)" by (cases nc) auto
  let ?ls = "reap_lr cfg command child status errno ls1"
  from nc w t have "no_child_left ?ls = 1" "command_terminated ?ls \<noteq> 0"
    by (simp_all add: reap_lr_no_child)
  with cfg have "policy_lr cfg ?ls =
      Exits (return_code_from_process_status (command_status ?ls)) ?ls"
    by (simp add: policy_lr_def)
  with r w show ?thesis by (simp add: little_reaper_loop_append)
qed

lemma little_reaper_default_stops_on_command:
  assumes "wait_forever cfg = 0" "wait_for_all_sub_processes cfg = 0"
    and "command_terminated ls = 0"
    and "\<forall>w\<in>set ws. \<not> finishes command w"
  shows "still_running (little_reaper_loop cfg command ws ls)"
  using little_reaper_default_before [OF assms(1,2,4,3), of "[]"] by auto

section \<open>Verified properties\<close>

subsection \<open>Group broadcast\<close>

text \<open>
  C9.  The broadcast helper signals the process group only when \<open>getpgrp() == getpid()\<close>.
  When the process is not the leader of its group the helper returns the state as it got
  it, and no run of the loop, whatever signals and wait results it sees, adds a \<open>kill\<close>
  to the effects.  When it is the leader, the helper appends exactly \<open>kill(0, sig)\<close>.
\<close>

theorem group_broadcast_only_as_leader:
  "(getpgrp p \<noteq> getpid p \<longrightarrow> send_signal_to_all_children p sig st = st) \<and>
   (getpgrp p = getpid p \<longrightarrow>
      send_signal_to_all_children p sig st = st\<lparr>effects := effects st @ [Kill 0 sig]\<rparr>) \<and>
   (getpgrp p \<noteq> getpid p \<longrightarrow>
      Kill pid s \<in> set (effects (state_of (tinyreaper_loop p es st cs))) \<longrightarrow>
      Kill pid s \<in> set (effects st))"
proof (intro conjI impI)
  assume nl: "getpgrp p \<noteq> getpid p"
  let ?st' = "state_of (tinyreaper_loop p es st cs)"
  assume k: "Kill pid s \<in> set (effects ?st')"
  have "evolves p st ?st'" by (rule tinyreaper_loop_evolves)
  then have "actions (effects ?st') = actions (effects st) \<or>
             actions (effects ?st') = actions (effects st) @ [Alarm shutdown_timeout_seconds]"
    using nl by (auto simp: evolves_def log_only_def shutdown_begun_def shutdown_actions_def)
  moreover from k have "Kill pid s \<in> set (actions (effects ?st'))"
    by (simp add: actions_def)
  ultimately have "Kill pid s \<in> set (actions (effects st))" by auto
  then show "Kill pid s \<in> set (effects st)" by (simp add: actions_def)
qed (simp_all add: send_signal_to_all_children_def)

theorem group_broadcast_only_as_leader_witness:
  "send_signal_to_all_children follower_proc SIGTERM quiet_state = quiet_state \<and>
   effects (send_signal_to_all_children leader_proc SIGTERM quiet_state) = [Kill 0 SIGTERM] \<and>
   Kill 0 SIGTERM \<notin> set (effects (state_of (tinyreaper_loop follower_proc
       [Signal SIGINT 1, Wait 101 0 0] quiet_state 0)))"
  using group_broadcast_only_as_leader [of follower_proc SIGTERM quiet_state 0 SIGTERM
      "[Signal SIGINT 1, Wait 101 0 0]" 0]
    group_broadcast_only_as_leader [of leader_proc SIGTERM quiet_state]
  by (auto simp: follower_proc_def leader_proc_def quiet_state_def)

subsection \<open>Beginning a shutdown more than once\<close>

text \<open>
  C4.  The claim asks that the shutdown begins at most once per run, so that the group
  broadcast and the alarm happen at most once.  \<open>start_shutdown\<close> tests the flag and sets
  it in two separate steps, and \<open>main\<close> calls it with no signal blocked.  When the loop has
  reaped the command and a termination signal (SIGINT, SIGQUIT, or SIGTERM from another
  process) is delivered after \<open>main\<close> has found the flag clear and before it sets it, the
  handler begins the shutdown and \<open>main\<close> then begins it again: SIGTERM is broadcast twice
  and the alarm is armed twice.
\<close>

theorem start_shutdown_preempted_twice:
  "shutdown_in_progress st = 0 \<and>
   ((sig = SIGTERM \<and> si_pid \<noteq> getpid p) \<or> sig = SIGINT \<or> sig = SIGQUIT) \<longrightarrow>
     (\<exists>st'. start_shutdown_preempted p sig si_pid st = Running st' \<and>
            actions (effects st') =
              actions (effects st) @ shutdown_actions p @ shutdown_actions p) \<and>
     (\<exists>st'. command_reaped_preempted p child status sig si_pid st = Running st' \<and>
            actions (effects st') =
              actions (effects st) @ shutdown_actions p @ shutdown_actions p)"
proof (intro impI; elim conjE)
  assume z: "shutdown_in_progress st = 0"
    and s: "(sig = SIGTERM \<and> si_pid \<noteq> getpid p) \<or> sig = SIGINT \<or> sig = SIGQUIT"
  have pre: "\<exists>st'. start_shutdown_preempted p sig si_pid st0 = Running st' \<and>
            actions (effects st') = actions (effects st0) @ shutdown_actions p @ shutdown_actions p"
    if z0: "shutdown_in_progress st0 = 0" for st0
  proof -
    from signal_handler_begins [OF s z0] obtain st1
      where h: "signal_handler p sig si_pid st0 = Running st1" and b: "shutdown_begun p st0 st1"
      by blast
    from h z0 have "start_shutdown_preempted p sig si_pid st0 = Running (start_shutdown_rest p st1)"
      by (simp add: start_shutdown_preempted_def)
    moreover from b have "actions (effects (start_shutdown_rest p st1)) =
        actions (effects st0) @ shutdown_actions p @ shutdown_actions p"
      by (simp add: start_shutdown_rest_actions shutdown_begun_def)
    ultimately show ?thesis by blast
  qed
  let ?st0 = "VERBOSEf ''%s finished.'' [ArgStr (child_argv0 p)] (LOG_process_state child status st)"
  have l: "log_only st ?st0"
    using log_only_LOG_process_state log_only_VERBOSEf by (rule log_only_trans)
  with z have "shutdown_in_progress ?st0 = 0" by (simp add: log_only_def)
  from pre [OF this] l
  have "\<exists>st'. command_reaped_preempted p child status sig si_pid st = Running st' \<and>
            actions (effects st') = actions (effects st) @ shutdown_actions p @ shutdown_actions p"
    by (simp add: command_reaped_preempted_def Let_def log_only_def)
  with pre [OF z] show "(\<exists>st'. start_shutdown_preempted p sig si_pid st = Running st' \<and>
            actions (effects st') =
              actions (effects st) @ shutdown_actions p @ shutdown_actions p) \<and>
     (\<exists>st'. command_reaped_preempted p child status sig si_pid st = Running st' \<and>
            actions (effects st') =
              actions (effects st) @ shutdown_actions p @ shutdown_actions p)"
    by blast
qed

theorem start_shutdown_preempted_twice_witness:
  "shutdown_in_progress quiet_state = 0 \<and>
   (\<exists>st'. command_reaped_preempted leader_proc 101 0 SIGINT 1 quiet_state = Running st' \<and>
          actions (effects st') = [Kill 0 SIGTERM, Alarm 5, Kill 0 SIGTERM, Alarm 5])"
proof -
  have z: "shutdown_in_progress quiet_state = 0" "actions (effects quiet_state) = []"
    by (simp_all add: quiet_state_def actions_def)
  have a: "shutdown_actions leader_proc = [Kill 0 SIGTERM, Alarm 5]"
    by (simp add: shutdown_actions_def leader_proc_def shutdown_timeout_seconds_def)
  from start_shutdown_preempted_twice [where st = quiet_state and sig = SIGINT and si_pid = 1
      and p = leader_proc and child = 101 and status = 0] z
  have "\<exists>st'. command_reaped_preempted leader_proc 101 0 SIGINT 1 quiet_state = Running st' \<and>
          actions (effects st') = actions (effects quiet_state) @
             shutdown_actions leader_proc @ shutdown_actions leader_proc"
    by blast
  with z a show ?thesis by simp
qed

subsection \<open>The deadline timer\<close>

text \<open>
  C5.  When SIGALRM is handled while the shutdown is in progress, the handler calls
  \<open>exit(-1)\<close> (status 255) after writing its log line, whatever else is pending, and
  the loop is over.  When no shutdown is in progress the handler returns and has changed
  nothing but the log (nothing at all when not verbose).  The handler exits the process
  in no other case: an exit from the handler implies that the signal was SIGALRM, that
  the shutdown was in progress, and that the exit argument is \<open>-1\<close>.
\<close>

theorem deadline_signal:
  "(shutdown_in_progress st \<noteq> 0 \<longrightarrow>
      (\<exists>st'. signal_handler p SIGALRM si_pid st = Exits (- 1) st' \<and> log_only st st' \<and>
             tinyreaper_loop p (Signal SIGALRM si_pid # es) st cs = Exits (- 1) st') \<and>
      exit_status (- 1) = 255) \<and>
   (shutdown_in_progress st = 0 \<longrightarrow>
      (\<exists>st'. signal_handler p SIGALRM si_pid st = Running st' \<and> log_only st st' \<and>
             (verbose st = 0 \<longrightarrow> st' = st))) \<and>
   (signal_handler p sig si_pid st = Exits rc st'' \<longrightarrow>
      sig = SIGALRM \<and> shutdown_in_progress st \<noteq> 0 \<and> rc = - 1)"
proof -
  have ne: "\<not> (SIGALRM = SIGTERM \<and> si_pid = getpid p)"
    by (simp add: SIGALRM_def SIGTERM_def)
  obtain st1 where l: "log_only st st1" and q: "verbose st = 0 \<longrightarrow> st1 = st"
    and h: "signal_handler p SIGALRM si_pid st = handle_alarm st1"
    using signal_handler_cases [OF ne, of st]
    by (auto simp: SIGALRM_def SIGTERM_def SIGINT_def SIGQUIT_def)
  from l have f: "shutdown_in_progress st1 = shutdown_in_progress st"
    by (simp add: log_only_def)
  have a: "shutdown_in_progress st \<noteq> 0 \<longrightarrow>
      (\<exists>st'. signal_handler p SIGALRM si_pid st = Exits (- 1) st' \<and> log_only st st' \<and>
             tinyreaper_loop p (Signal SIGALRM si_pid # es) st cs = Exits (- 1) st')"
  proof
    assume "shutdown_in_progress st \<noteq> 0"
    with f have "handle_alarm st1 = Exits (- 1) (LOG ''Shutdown timeout. Terminating.'' st1)"
      by (simp add: handle_alarm_def)
    moreover have "log_only st (LOG ''Shutdown timeout. Terminating.'' st1)"
      using l log_only_LOG by (rule log_only_trans)
    ultimately show "\<exists>st'. signal_handler p SIGALRM si_pid st = Exits (- 1) st' \<and>
        log_only st st' \<and> tinyreaper_loop p (Signal SIGALRM si_pid # es) st cs = Exits (- 1) st'"
      using h by simp
  qed
  have b: "shutdown_in_progress st = 0 \<longrightarrow>
      (\<exists>st'. signal_handler p SIGALRM si_pid st = Running st' \<and> log_only st st' \<and>
             (verbose st = 0 \<longrightarrow> st' = st))"
    using f h l q by (simp add: handle_alarm_def)
  have c: "signal_handler p sig si_pid st = Exits rc st'' \<longrightarrow>
      sig = SIGALRM \<and> shutdown_in_progress st \<noteq> 0 \<and> rc = - 1"
    using signal_handler_outcome [of p sig si_pid st] by auto
  from a b c show ?thesis by (simp add: exit_status_failure)
qed

theorem deadline_signal_witness:
  "shutdown_in_progress terminating_state \<noteq> 0 \<and>
   (\<exists>st'. signal_handler leader_proc SIGALRM 0 terminating_state = Exits (- 1) st' \<and>
          log_only terminating_state st' \<and>
          tinyreaper_loop leader_proc [Signal SIGALRM 0, Wait 101 0 0] terminating_state 0
            = Exits (- 1) st') \<and>
   shutdown_in_progress quiet_state = 0 \<and> verbose quiet_state = 0 \<and>
   signal_handler leader_proc SIGALRM 0 quiet_state = Running quiet_state"
proof -
  have a: "shutdown_in_progress terminating_state \<noteq> 0"
    by (simp add: terminating_state_def)
  have b: "shutdown_in_progress quiet_state = 0" "verbose quiet_state = 0"
    by (simp_all add: quiet_state_def)
  show ?thesis
    using a b
      deadline_signal [of terminating_state leader_proc 0 "[Wait 101 0 0]" 0]
      deadline_signal [of quiet_state leader_proc 0]
    by auto
qed

subsection \<open>Signals the process sends to itself\<close>

text \<open>
  C3, as stated, says that SIGTERM, SIGINT and SIGQUIT are all ignored when the sender is
  the process itself.  The handler compares the sender only for SIGTERM, the one signal
  the process broadcasts: a SIGINT whose sender is the process itself begins a shutdown.
\<close>

theorem self_sent_SIGINT_counterexample:
  "shutdown_in_progress quiet_state = 0 \<and>
   shutdown_in_progress (state_of (signal_handler leader_proc SIGINT (getpid leader_proc)
      quiet_state)) = 1 \<and>
   actions (effects (state_of (signal_handler leader_proc SIGINT (getpid leader_proc)
      quiet_state))) = [Kill 0 SIGTERM, Alarm 5]"
  by code_simp

text \<open>
  C3, amended.  A SIGTERM whose sender is the process itself makes the handler return
  without beginning a shutdown: nothing but the log changes (nothing at all when not
  verbose).  For SIGINT and SIGQUIT the handler does not look at the sender.
\<close>

theorem self_sent_SIGTERM_ignored:
  "(sig = SIGTERM \<and> si_pid = getpid p \<longrightarrow>
      (\<exists>st'. signal_handler p sig si_pid st = Running st' \<and> log_only st st' \<and>
             (verbose st = 0 \<longrightarrow> st' = st))) \<and>
   (sig = SIGINT \<or> sig = SIGQUIT \<longrightarrow>
      signal_handler p sig si_pid st = signal_handler p sig other_pid st)"
  by (auto simp: signal_handler_def log_only_VERBOSE VERBOSE_quiet
      SIGTERM_def SIGINT_def SIGQUIT_def)

theorem self_sent_SIGTERM_ignored_witness:
  "signal_handler leader_proc SIGTERM (getpid leader_proc) quiet_state = Running quiet_state \<and>
   signal_handler leader_proc SIGQUIT (getpid leader_proc) quiet_state =
     signal_handler leader_proc SIGQUIT 1 quiet_state"
proof -
  have "verbose quiet_state = 0" by (simp add: quiet_state_def)
  then show ?thesis
    using self_sent_SIGTERM_ignored [of SIGTERM "getpid leader_proc" leader_proc quiet_state]
      self_sent_SIGTERM_ignored [of SIGQUIT "getpid leader_proc" leader_proc quiet_state 1]
    by auto
qed

subsection \<open>What a shutdown sends\<close>

text \<open>
  C10.  Whichever of SIGTERM (from another process), SIGINT or SIGQUIT arrives first,
  the handler returns with the shutdown in progress, having sent SIGTERM to the group
  (when the process leads it) and armed the alarm with 5 seconds; these actions, the
  flag and the other globals do not depend on which signal it was, and when not verbose
  the whole resulting state is that of \<open>start_shutdown\<close>, which does not receive the
  signal number.
\<close>

theorem shutdown_signal_is_SIGTERM:
  assumes "(sig = SIGTERM \<and> si_pid \<noteq> getpid p) \<or> sig = SIGINT \<or> sig = SIGQUIT"
    and "shutdown_in_progress st = 0"
  shows "\<exists>st'. signal_handler p sig si_pid st = Running st' \<and>
           shutdown_in_progress st' = 1 \<and>
           verbose st' = verbose st \<and> command_pid st' = command_pid st \<and>
           actions (effects st') =
             actions (effects st) @
             (if getpgrp p = getpid p then [Kill 0 SIGTERM] else []) @ [Alarm 5] \<and>
           (verbose st = 0 \<longrightarrow> st' = start_shutdown p st)"
proof -
  from assms(1) have ne: "\<not> (sig = SIGTERM \<and> si_pid = getpid p)"
    by (auto simp: SIGTERM_def SIGINT_def SIGQUIT_def)
  from assms(1) have t: "sig = SIGTERM \<or> sig = SIGINT \<or> sig = SIGQUIT" by blast
  obtain st1 where l: "log_only st st1" and q: "verbose st = 0 \<longrightarrow> st1 = st"
    and h: "signal_handler p sig si_pid st = Running (start_shutdown p st1)"
    using signal_handler_cases [OF ne, of st] t by auto
  from l assms(2) have z: "shutdown_in_progress st1 = 0" by (simp add: log_only_def)
  show ?thesis
    using h q l start_shutdown_first [OF z, of p]
    by (auto simp: log_only_def shutdown_actions_def shutdown_timeout_seconds_def)
qed

theorem shutdown_signal_is_SIGTERM_witness:
  "shutdown_in_progress quiet_state = 0 \<and>
   (\<exists>st'. signal_handler leader_proc SIGQUIT 1 quiet_state = Running st' \<and>
          signal_handler leader_proc SIGINT 1 quiet_state = Running st' \<and>
          signal_handler leader_proc SIGTERM 1 quiet_state = Running st' \<and>
          shutdown_in_progress st' = 1 \<and>
          actions (effects st') = [Kill 0 SIGTERM, Alarm 5])"
proof -
  have z: "shutdown_in_progress quiet_state = 0" "verbose quiet_state = 0"
    "actions (effects quiet_state) = []" "getpgrp leader_proc = getpid leader_proc"
    "1 \<noteq> getpid leader_proc"
    by (simp_all add: quiet_state_def leader_proc_def actions_def)
  have g: "(SIGTERM = SIGTERM \<and> 1 \<noteq> getpid leader_proc) \<or> SIGTERM = SIGINT \<or> SIGTERM = SIGQUIT"
    using z by simp
  show ?thesis
    using z shutdown_signal_is_SIGTERM [of SIGQUIT 1 leader_proc quiet_state]
     shutdown_signal_is_SIGTERM [of SIGINT 1 leader_proc quiet_state]
     shutdown_signal_is_SIGTERM [OF g z(1)]
    by auto
qed

subsection \<open>The exit status of the supervisor\<close>

text \<open>
  C7, as stated, speaks of every run in which the command is killed by a signal.
  little-reaper started with \<open>-r\<close> does not wait for the command at all: it exits with 0
  right after the fork, whatever becomes of the command.
\<close>

theorem no_reap_counterexample:
  "WIFSIGNALED 9 \<and>
   exit_code (little_reaper_main no_reap_config 101 [(101, 9, 0)] []) = Some 0 \<and>
   exit_status 0 = 0"
  by code_simp

text \<open>
  C7, amended.  In little-reaper \<open>return_code_from_process_status\<close> returns \<open>-1\<close>
  (status 255) for the status of a command killed by a signal.  When little-reaper reaps
  (no \<open>-r\<close>) and every status it records for the command is such a status, every exit of
  the process is \<open>exit(-1)\<close>; it does exit on reaping the command when neither \<open>-w\<close> nor
  \<open>-W\<close> is set, and under \<open>-w\<close> once \<open>wait\<close> has reported, after the command was
  reaped, that no child is left; under \<open>-W\<close> it never exits.  With \<open>-r\<close> it exits with
  0 at once, or sleeps forever under \<open>-W\<close>.  In tinyreaper, once the command's death by
  signal has been reaped (and its pid is not reaped again), every exit of the process is
  \<open>exit(-1)\<close>, and the process does exit when \<open>wait\<close> reports that no child is left.
\<close>

theorem killed_command_gives_failure_status:
  "(WIFSIGNALED status \<longrightarrow>
      return_code_from_process_status status = - 1 \<and> exit_status (- 1) = 255) \<and>
   (dont_reap cfg = 0 \<and> (\<forall>w\<in>set ws. finishes command w \<longrightarrow> WIFSIGNALED (fst (snd w))) \<and>
    little_reaper_main cfg command ws out = Exits rc ls' \<longrightarrow> rc = - 1) \<and>
   (dont_reap cfg = 0 \<and> wait_forever cfg = 0 \<and> wait_for_all_sub_processes cfg = 0 \<and>
    WIFSIGNALED status \<and> command > 0 \<and> (\<forall>w\<in>set before. \<not> finishes command w) \<longrightarrow>
      (\<exists>ls''. little_reaper_main cfg command (before @ (command, status, errno) # after) out =
              Exits (- 1) ls'')) \<and>
   (dont_reap cfg = 0 \<and> wait_forever cfg = 0 \<and> wait_for_all_sub_processes cfg \<noteq> 0 \<and>
    (\<forall>w\<in>set before. \<not> fails_no_child w) \<and> (\<exists>w\<in>set before. finishes command w) \<and>
    (\<forall>w\<in>set before. finishes command w \<longrightarrow> WIFSIGNALED (fst (snd w))) \<and>
    fails_no_child nc \<longrightarrow>
      (\<exists>ls''. little_reaper_main cfg command (before @ nc # after) out = Exits (- 1) ls'')) \<and>
   (dont_reap cfg = 0 \<and> wait_forever cfg \<noteq> 0 \<longrightarrow>
      exit_code (little_reaper_main cfg command ws out) = None) \<and>
   (dont_reap cfg \<noteq> 0 \<and> wait_forever cfg = 0 \<longrightarrow>
      (\<exists>ls''. little_reaper_main cfg command ws out = Exits 0 ls'')) \<and>
   (dont_reap cfg \<noteq> 0 \<and> wait_forever cfg \<noteq> 0 \<longrightarrow>
      (\<exists>ls''. little_reaper_main cfg command ws out = SleepsForever ls'')) \<and>
   (WIFSIGNALED status \<and> cpid > 0 \<and> (\<forall>ev\<in>set pre. \<not> is_no_child ev) \<and>
    (\<forall>ev\<in>set post. \<not> reaps cpid ev) \<longrightarrow>
      (tinyreaper_main p cpid (pre @ Wait cpid status errno # post) st = Exits rc st' \<longrightarrow>
         rc = - 1) \<and>
      ((\<exists>ev\<in>set post. is_no_child ev) \<longrightarrow>
         (\<exists>st''. tinyreaper_main p cpid (pre @ Wait cpid status errno # post) st =
                 Exits (- 1) st'')))"
proof (intro conjI impI; (elim conjE)?)
  assume "WIFSIGNALED status"
  then show "return_code_from_process_status status = - 1" by (rule return_code_signaled)
next
  show "exit_status (- 1) = 255" by (rule exit_status_failure)
next
  assume d: "dont_reap cfg = 0"
    and q: "\<forall>w\<in>set ws. finishes command w \<longrightarrow> WIFSIGNALED (fst (snd w))"
    and r: "little_reaper_main cfg command ws out = Exits rc ls'"
  let ?ls = "\<lparr>command_status = 0, command_terminated = 0, no_child_left = 0, printed = out\<rparr>"
  from d r have "little_reaper_loop cfg command ws ?ls = Exits rc ls'"
    by (simp add: little_reaper_main_def)
  with q have "\<exists>s. WIFSIGNALED s \<and> rc = return_code_from_process_status s"
    by (intro little_reaper_loop_exit_code [of ws command WIFSIGNALED ?ls]) simp_all
  then show "rc = - 1" by (auto simp: return_code_signaled)
next
  assume "dont_reap cfg = 0" "wait_forever cfg = 0" "wait_for_all_sub_processes cfg = 0"
    "\<forall>w\<in>set before. \<not> finishes command w" and sg: "WIFSIGNALED status" and "command > 0"
  moreover from this have "finishes command (command, status, errno)" by simp
  ultimately show "\<exists>ls''. little_reaper_main cfg command
        (before @ (command, status, errno) # after) out = Exits (- 1) ls''"
    using little_reaper_main_default [of cfg before command command status errno after out]
    by (auto simp: return_code_signaled)
next
  assume d: "dont_reap cfg = 0" and c: "wait_forever cfg = 0" "wait_for_all_sub_processes cfg \<noteq> 0"
    and b: "\<forall>w\<in>set before. \<not> fails_no_child w" "\<exists>w\<in>set before. finishes command w"
    and q: "\<forall>w\<in>set before. finishes command w \<longrightarrow> WIFSIGNALED (fst (snd w))"
    and nc: "fails_no_child nc"
  let ?ls = "\<lparr>command_status = 0, command_terminated = 0, no_child_left = 0, printed = out\<rparr>"
  from little_reaper_wait_all_exits [OF c b nc, of ?ls after] obtain rc1 ls1
    where e: "little_reaper_loop cfg command (before @ nc # after) ?ls = Exits rc1 ls1"
      and e1: "little_reaper_loop cfg command (before @ [nc]) ?ls = Exits rc1 ls1"
    by auto
  from nc have "\<not> finishes command nc" by (cases nc) auto
  with q have "\<forall>w\<in>set (before @ [nc]). finishes command w \<longrightarrow> WIFSIGNALED (fst (snd w))"
    by auto
  from little_reaper_loop_exit_code [where Q = WIFSIGNALED, OF this _ e1]
  have "\<exists>s. WIFSIGNALED s \<and> rc1 = return_code_from_process_status s" by simp
  then have "rc1 = - 1" by (auto simp: return_code_signaled)
  with e d show "\<exists>ls''. little_reaper_main cfg command (before @ nc # after) out = Exits (- 1) ls''"
    by (simp add: little_reaper_main_def)
next
  assume "dont_reap cfg = 0" "wait_forever cfg \<noteq> 0"
  then show "exit_code (little_reaper_main cfg command ws out) = None"
    by (simp add: little_reaper_main_def little_reaper_forever_never_exits)
next
  assume "dont_reap cfg \<noteq> 0" "wait_forever cfg = 0"
  then show "\<exists>ls''. little_reaper_main cfg command ws out = Exits 0 ls''"
    by (simp add: little_reaper_main_def)
next
  assume "dont_reap cfg \<noteq> 0" "wait_forever cfg \<noteq> 0"
  then show "\<exists>ls''. little_reaper_main cfg command ws out = SleepsForever ls''"
    by (simp add: little_reaper_main_def infinite_sleep_def)
next
  assume sg: "WIFSIGNALED status" and h: "cpid > 0" "\<forall>ev\<in>set pre. \<not> is_no_child ev"
    "\<forall>ev\<in>set post. \<not> reaps cpid ev"
  let ?run = "tinyreaper_main p cpid (pre @ Wait cpid status errno # post) st"
  from h have o: "\<And>rc st'. (?run = Exits rc st' \<longrightarrow>
           (rc = - 1 \<and> (\<exists>ev\<in>set (pre @ post). is_alarm ev)) \<or>
           rc = (if (WIFEXITED status \<and> WEXITSTATUS status \<noteq> 0) \<or> WIFSIGNALED status
                 then - 1 else 0)) \<and>
         ((\<exists>ev\<in>set post. is_no_child ev) \<longrightarrow> (\<exists>rc' st''. ?run = Exits rc' st''))"
    by (rule tinyreaper_main_observed)
  from o [of rc st'] sg show "?run = Exits rc st' \<Longrightarrow> rc = - 1" by auto
  assume "\<exists>ev\<in>set post. is_no_child ev"
  with o obtain rc' st'' where e: "?run = Exits rc' st''" by blast
  with o [of rc' st''] sg have "rc' = - 1" by auto
  with e show "\<exists>st''. ?run = Exits (- 1) st''" by simp
qed

theorem killed_command_gives_failure_status_witness:
  "WIFSIGNALED 9 \<and> return_code_from_process_status 9 = - 1 \<and>
   (\<exists>ls'. little_reaper_main default_config 101 [(55, 0, 0), (101, 9, 0), (- 1, 0, ECHILD)] []
            = Exits (- 1) ls') \<and>
   (\<exists>ls'. little_reaper_main wait_all_config 101 [(101, 9, 0), (55, 0, 0), (- 1, 0, ECHILD)] []
            = Exits (- 1) ls') \<and>
   exit_code (little_reaper_main wait_forever_config 101
       [(101, 9, 0), (55, 0, 0), (- 1, 0, ECHILD)] []) = None \<and>
   (\<exists>ls'. little_reaper_main no_reap_config 101 [(101, 9, 0)] [] = Exits 0 ls') \<and>
   (\<exists>ls'. little_reaper_main (no_reap_config\<lparr>wait_forever := 1\<rparr>) 101 [(101, 9, 0)] []
            = SleepsForever ls') \<and>
   (\<exists>st'. tinyreaper_main leader_proc 101
            [Wait 55 0 0, Signal SIGTERM 100, Wait 101 9 0, Wait (- 1) 0 ECHILD] quiet_state
            = Exits (- 1) st')"
proof -
  have s: "WIFSIGNALED 9" by (simp add: WIFSIGNALED_def)
  have c: "dont_reap default_config = 0 \<and> wait_forever default_config = 0 \<and>
           wait_for_all_sub_processes default_config = 0"
    by (simp add: default_config_def)
  have l: "\<forall>w\<in>set [(55, 0, 0)]. \<not> finishes 101 w" by simp
  have t: "\<forall>ev\<in>set [Wait 55 0 0, Signal SIGTERM 100]. \<not> is_no_child ev"
    "\<forall>ev\<in>set [Wait (- 1) 0 ECHILD]. \<not> reaps 101 ev"
    "\<exists>ev\<in>set [Wait (- 1) 0 ECHILD]. is_no_child ev" by simp_all
  have wa: "dont_reap wait_all_config = 0 \<and> wait_forever wait_all_config = 0 \<and>
      wait_for_all_sub_processes wait_all_config \<noteq> 0 \<and>
      (\<forall>w\<in>set [(101, 9, 0), (55, 0, 0)]. \<not> fails_no_child w) \<and>
      (\<exists>w\<in>set [(101, 9, 0), (55, 0, 0)]. finishes 101 w) \<and>
      (\<forall>w\<in>set [(101, 9, 0), (55, 0, 0)]. finishes 101 w \<longrightarrow> WIFSIGNALED (fst (snd w))) \<and>
      fails_no_child (- 1, 0, ECHILD)"
    using s by (simp add: wait_all_config_def)
  have wf: "dont_reap wait_forever_config = 0 \<and> wait_forever wait_forever_config \<noteq> 0"
    by (simp add: wait_forever_config_def)
  have nr: "dont_reap no_reap_config \<noteq> 0 \<and> wait_forever no_reap_config = 0"
    "dont_reap (no_reap_config\<lparr>wait_forever := 1\<rparr>) \<noteq> 0 \<and>
     wait_forever (no_reap_config\<lparr>wait_forever := 1\<rparr>) \<noteq> 0"
    by (simp_all add: no_reap_config_def)
  note inst = killed_command_gives_failure_status [where status = 9 and cfg = default_config
      and command = 101 and before = "[(55, 0, 0)]" and errno = 0
      and after = "[(- 1, 0, ECHILD)]" and out = "[]" and cpid = 101
      and pre = "[Wait 55 0 0, Signal SIGTERM 100]" and post = "[Wait (- 1) 0 ECHILD]"
      and p = leader_proc and st = quiet_state]
  from inst s c l t have
    "return_code_from_process_status 9 = - 1"
    "\<exists>ls'. little_reaper_main default_config 101 [(55, 0, 0), (101, 9, 0), (- 1, 0, ECHILD)] []
            = Exits (- 1) ls'"
    "\<exists>st'. tinyreaper_main leader_proc 101
            [Wait 55 0 0, Signal SIGTERM 100, Wait 101 9 0, Wait (- 1) 0 ECHILD] quiet_state
            = Exits (- 1) st'"
    by simp_all
  moreover
  from killed_command_gives_failure_status [THEN conjunct2, THEN conjunct2, THEN conjunct2,
      THEN conjunct1, rule_format, OF wa, where after = "[]" and out = "[]"]
  have "\<exists>ls'. little_reaper_main wait_all_config 101
      [(101, 9, 0), (55, 0, 0), (- 1, 0, ECHILD)] [] = Exits (- 1) ls'"
    by simp
  moreover
  from killed_command_gives_failure_status [THEN conjunct2, THEN conjunct2, THEN conjunct2,
      THEN conjunct2, THEN conjunct1, rule_format, OF wf]
  have "exit_code (little_reaper_main wait_forever_config 101
       [(101, 9, 0), (55, 0, 0), (- 1, 0, ECHILD)] []) = None" .
  moreover
  from killed_command_gives_failure_status [THEN conjunct2, THEN conjunct2, THEN conjunct2,
      THEN conjunct2, THEN conjunct2, THEN conjunct1, rule_format, OF nr(1)]
  have "\<exists>ls'. little_reaper_main no_reap_config 101 [(101, 9, 0)] [] = Exits 0 ls'" .
  moreover
  from killed_command_gives_failure_status [THEN conjunct2, THEN conjunct2, THEN conjunct2,
      THEN conjunct2, THEN conjunct2, THEN conjunct2, THEN conjunct1, rule_format, OF nr(2)]
  have "\<exists>ls'. little_reaper_main (no_reap_config\<lparr>wait_forever := 1\<rparr>) 101 [(101, 9, 0)] []
            = SleepsForever ls'" .
  ultimately show ?thesis using s by blast
qed




text \<open>
  C6.  The claim asks for the failure code when the command's status was never recorded.
  tinyreaper initialises \<open>command_status\<close> with 0, which reads as a normal exit with
  status 0: whenever the loop is left without the command having been reaped (and the
  deadline alarm has not ended the process), the process exits with 0.  This is what
  happens when \<open>fork\<close> fails: \<open>command_pid\<close> is \<open>-1\<close>, the parent branch runs, and the
  first \<open>wait\<close> fails with ECHILD.
\<close>

theorem command_never_observed_exits_zero:
  "(\<forall>ev\<in>set es. \<not> reaps cpid ev \<and> \<not> is_alarm ev) \<and> (\<exists>ev\<in>set es. is_no_child ev) \<longrightarrow>
     (\<exists>st'. tinyreaper_main p cpid es st = Exits 0 st') \<and> exit_status 0 = 0"
proof (intro impI conjI; (elim conjE)?)
  assume a: "\<forall>ev\<in>set es. \<not> reaps cpid ev \<and> \<not> is_alarm ev" and b: "\<exists>ev\<in>set es. is_no_child ev"
  let ?st = "st\<lparr>command_pid := cpid\<rparr>"
  from b obtain rc st' where e: "tinyreaper_loop p es ?st 0 = Exits rc st'"
    using tinyreaper_loop_exits by blast
  from a have "\<forall>ev\<in>set es. \<not> reaps (command_pid ?st) ev" by simp
  from tinyreaper_loop_exit_code [OF this e] a have "rc = 0" by (auto simp: status_zero)
  with e show "\<exists>st'. tinyreaper_main p cpid es st = Exits 0 st'"
    by (simp add: tinyreaper_main_def)
qed (simp add: exit_status_def)

theorem command_never_observed_exits_zero_witness:
  "(\<exists>st'. tinyreaper_main leader_proc (- 1) [Wait (- 1) 0 ECHILD] quiet_state = Exits 0 st') \<and>
   exit_code (tinyreaper_main leader_proc (- 1) [Wait (- 1) 0 ECHILD] quiet_state) = Some 0"
proof -
  have "(\<forall>ev\<in>set [Wait (- 1) 0 ECHILD]. \<not> reaps (- 1) ev \<and> \<not> is_alarm ev) \<and>
        (\<exists>ev\<in>set [Wait (- 1) 0 ECHILD]. is_no_child ev)" by simp
  with command_never_observed_exits_zero [of "[Wait (- 1) 0 ECHILD]" "- 1" leader_proc quiet_state]
  have "\<exists>st'. tinyreaper_main leader_proc (- 1) [Wait (- 1) 0 ECHILD] quiet_state = Exits 0 st'"
    by blast
  then show ?thesis by auto
qed

subsection \<open>After the command has terminated\<close>

text \<open>
  C2, as stated, makes the terminating transition depend on a configured policy, and lets
  the loop finish at once when no policy is configured.  That holds for the supervisor
  with \<open>-w\<close> and \<open>-t\<close>, not for tinyreaper, which has no such option: on reaping the
  command it begins the shutdown (SIGTERM to the group, alarm) and is still waiting
  afterwards.
\<close>

theorem unconditional_shutdown_counterexample:
  "still_running (tinyreaper_main leader_proc 101 [Wait 101 0 0] quiet_state) \<and>
   shutdown_in_progress (state_of (tinyreaper_main leader_proc 101 [Wait 101 0 0] quiet_state))
     = 1 \<and>
   actions (effects (state_of (tinyreaper_main leader_proc 101 [Wait 101 0 0] quiet_state)))
     = [Kill 0 SIGTERM, Alarm 5]"
  by code_simp

text \<open>
  C2, amended.  The supervisor with the options \<open>-w\<close> and \<open>-t\<close> does what the claim
  says: when its loop reaps the command, it sends SIGTERM to the group only if \<open>-t\<close> is
  set (and it leads the group), arms no alarm and leaves the shutdown flag alone; if
  \<open>-w\<close> is not set it leaves the loop and exits at once with the code computed from the
  command's status, so with neither option it exits without signaling or waiting; if
  \<open>-w\<close> is set it goes on with the next \<open>wait\<close>.  tinyreaper has no such options: on
  reaping the command with no shutdown in progress it always begins the shutdown and goes
  on with the next \<open>wait\<close>, and it keeps running as long as \<open>wait\<close> has not reported
  that no child is left and the alarm has not been delivered.  little-reaper without
  \<open>-r\<close>, \<open>-w\<close> and \<open>-W\<close> exits when it reaps the command, with the command's return
  code, having sent no signal and armed no timer.
\<close>

theorem command_termination_policy:
  "(child > 0 \<and> child = command_pid_wt wst \<and> \<not> wait_for_all_children wst \<noteq> 0 \<longrightarrow>
      (\<exists>wst'. loop_wt p (Wait child status errno # es) wst cs =
                Exits (if (WIFEXITED status \<and> WEXITSTATUS status \<noteq> 0) \<or> WIFSIGNALED status
                       then - 1 else 0) wst' \<and>
              shutdown_in_progress_wt wst' = shutdown_in_progress_wt wst \<and>
              actions (effects_wt wst') = actions (effects_wt wst) @
                (if terminate_all_children_after_command_terminated wst \<noteq> 0 \<and>
                    getpgrp p = getpid p
                 then [Kill 0 SIGTERM] else []))) \<and>
   (child > 0 \<and> child = command_pid_wt wst \<and> wait_for_all_children wst \<noteq> 0 \<longrightarrow>
      (\<exists>wst'. loop_wt p (Wait child status errno # es) wst cs = loop_wt p es wst' status \<and>
              shutdown_in_progress_wt wst' = shutdown_in_progress_wt wst \<and>
              actions (effects_wt wst') = actions (effects_wt wst) @
                (if terminate_all_children_after_command_terminated wst \<noteq> 0 \<and>
                    getpgrp p = getpid p
                 then [Kill 0 SIGTERM] else []))) \<and>
   (child > 0 \<and> child = command_pid st \<and> shutdown_in_progress st = 0 \<longrightarrow>
      (\<exists>st1. shutdown_begun p st st1 \<and>
             tinyreaper_loop p (Wait child status errno # es) st cs =
               tinyreaper_loop p es st1 status)) \<and>
   ((\<forall>ev\<in>set es. \<not> is_no_child ev \<and> \<not> is_alarm ev) \<longrightarrow>
      still_running (tinyreaper_loop p es st cs)) \<and>
   (dont_reap cfg = 0 \<and> wait_forever cfg = 0 \<and> wait_for_all_sub_processes cfg = 0 \<and>
    (\<forall>w\<in>set before. \<not> finishes command w) \<and> finishes command (c, s, e) \<longrightarrow>
      (\<exists>ls'. little_reaper_main cfg command (before @ (c, s, e) # after) out =
               Exits (return_code_from_process_status s) ls' \<and>
             actions (printed ls') = actions out))"
proof (intro conjI impI; (elim conjE)?)
  assume a: "child > 0" "child = command_pid_wt wst" and w: "\<not> wait_for_all_children wst \<noteq> 0"
  from loop_body_wt_command [OF a, of p status errno cs] w obtain wst1
    where b: "loop_body_wt p child status errno wst cs = Break_wt wst1 status"
      and f: "shutdown_in_progress_wt wst1 = shutdown_in_progress_wt wst"
      and k: "actions (effects_wt wst1) = actions (effects_wt wst) @
                (if terminate_all_children_after_command_terminated wst \<noteq> 0 \<and>
                    getpgrp p = getpid p
                 then [Kill 0 SIGTERM] else [])"
    by auto
  from after_loop_wt_Exits [of wst1 status] obtain wst2
    where e: "after_loop_wt wst1 status =
        Exits (if (WIFEXITED status \<and> WEXITSTATUS status \<noteq> 0) \<or> WIFSIGNALED status
               then - 1 else 0) wst2"
      and l: "log_only_wt wst1 wst2"
    by blast
  from b e have "loop_wt p (Wait child status errno # es) wst cs =
        Exits (if (WIFEXITED status \<and> WEXITSTATUS status \<noteq> 0) \<or> WIFSIGNALED status
               then - 1 else 0) wst2"
    by simp
  moreover from l f k have "shutdown_in_progress_wt wst2 = shutdown_in_progress_wt wst"
    "actions (effects_wt wst2) = actions (effects_wt wst) @
                (if terminate_all_children_after_command_terminated wst \<noteq> 0 \<and>
                    getpgrp p = getpid p
                 then [Kill 0 SIGTERM] else [])"
    by (simp_all add: log_only_wt_def)
  ultimately show "\<exists>wst'. loop_wt p (Wait child status errno # es) wst cs =
                Exits (if (WIFEXITED status \<and> WEXITSTATUS status \<noteq> 0) \<or> WIFSIGNALED status
                       then - 1 else 0) wst' \<and>
              shutdown_in_progress_wt wst' = shutdown_in_progress_wt wst \<and>
              actions (effects_wt wst') = actions (effects_wt wst) @
                (if terminate_all_children_after_command_terminated wst \<noteq> 0 \<and>
                    getpgrp p = getpid p
                 then [Kill 0 SIGTERM] else [])"
    by blast
next
  assume a: "child > 0" "child = command_pid_wt wst" and w: "wait_for_all_children wst \<noteq> 0"
  from loop_body_wt_command [OF a, of p status errno cs] w obtain wst1
    where b: "loop_body_wt p child status errno wst cs = Continue_wt wst1 status"
      and f: "shutdown_in_progress_wt wst1 = shutdown_in_progress_wt wst"
      and k: "actions (effects_wt wst1) = actions (effects_wt wst) @
                (if terminate_all_children_after_command_terminated wst \<noteq> 0 \<and>
                    getpgrp p = getpid p
                 then [Kill 0 SIGTERM] else [])"
    by auto
  from b have "loop_wt p (Wait child status errno # es) wst cs = loop_wt p es wst1 status"
    by simp
  with f k show "\<exists>wst'. loop_wt p (Wait child status errno # es) wst cs =
              loop_wt p es wst' status \<and>
              shutdown_in_progress_wt wst' = shutdown_in_progress_wt wst \<and>
              actions (effects_wt wst') = actions (effects_wt wst) @
                (if terminate_all_children_after_command_terminated wst \<noteq> 0 \<and>
                    getpgrp p = getpid p
                 then [Kill 0 SIGTERM] else [])"
    by blast
next
  assume a: "child > 0" "child = command_pid st" and z: "shutdown_in_progress st = 0"
  from a obtain st1 where l: "log_only st st1"
    and b: "loop_body p child status errno st cs = Continue (start_shutdown p st1) status"
    by (rule loop_body_command)
  from l z have z1: "shutdown_in_progress st1 = 0" by (simp add: log_only_def)
  have "shutdown_begun p st (start_shutdown p st1)"
    using l z start_shutdown_first [OF z1, of p]
    by (simp add: shutdown_begun_def log_only_def)
  with b show "\<exists>st1. shutdown_begun p st st1 \<and>
             tinyreaper_loop p (Wait child status errno # es) st cs =
               tinyreaper_loop p es st1 status"
    by auto
next
  assume "\<forall>ev\<in>set es. \<not> is_no_child ev \<and> \<not> is_alarm ev"
  then have n: "\<forall>ev\<in>set es. \<not> is_no_child ev" and m: "\<not> (\<exists>ev\<in>set es. is_alarm ev)"
    by auto
  from tinyreaper_loop_leaves_on_no_child [OF n, of p st cs] m
  show "still_running (tinyreaper_loop p es st cs)" by auto
next
  assume "dont_reap cfg = 0" "wait_forever cfg = 0" "wait_for_all_sub_processes cfg = 0"
    "\<forall>w\<in>set before. \<not> finishes command w" "finishes command (c, s, e)"
  then show "\<exists>ls'. little_reaper_main cfg command (before @ (c, s, e) # after) out =
               Exits (return_code_from_process_status s) ls' \<and>
             actions (printed ls') = actions out"
    by (rule little_reaper_main_default)
qed

theorem command_termination_policy_witness:
  "(\<exists>wst'. loop_wt leader_proc [Wait 101 0 0, Wait 55 0 0] (state_wt_with 0 0) 0 = Exits 0 wst' \<and>
      actions (effects_wt wst') = []) \<and>
   (\<exists>wst'. loop_wt leader_proc [Wait 101 0 0, Wait 55 0 0] (state_wt_with 0 1) 0 = Exits 0 wst' \<and>
      actions (effects_wt wst') = [Kill 0 SIGTERM]) \<and>
   (\<exists>wst'. loop_wt leader_proc [Wait 101 0 0, Wait 55 0 0] (state_wt_with 1 0) 0 =
             loop_wt leader_proc [Wait 55 0 0] wst' 0 \<and>
      actions (effects_wt wst') = []) \<and>
   (\<exists>st1. shutdown_begun leader_proc quiet_state st1 \<and>
      tinyreaper_loop leader_proc [Wait 101 0 0, Wait 55 0 0, Wait (- 1) 0 EINTR] quiet_state 0 =
      tinyreaper_loop leader_proc [Wait 55 0 0, Wait (- 1) 0 EINTR] st1 0) \<and>
   still_running (tinyreaper_loop leader_proc [Wait 101 0 0, Wait 55 0 0, Wait (- 1) 0 EINTR]
      quiet_state 0) \<and>
   (\<exists>ls'. little_reaper_main default_config 101 [(55, 0, 0), (101, 0, 0), (56, 0, 0)] [] =
      Exits 0 ls' \<and> actions (printed ls') = [])"
proof -
  have q: "(101::int) > 0" "101 = command_pid quiet_state" "shutdown_in_progress quiet_state = 0"
    by (simp_all add: quiet_state_def)
  have n: "\<forall>ev\<in>set [Wait 101 0 0, Wait 55 0 0, Wait (- 1) 0 EINTR].
             \<not> is_no_child ev \<and> \<not> is_alarm ev"
    by (simp add: EINTR_def ECHILD_def)
  have c: "dont_reap default_config = 0" "wait_forever default_config = 0"
    "wait_for_all_sub_processes default_config = 0"
    by (simp_all add: default_config_def)
  have l: "\<forall>w\<in>set [(55, 0, 0)]. \<not> finishes 101 w" "finishes 101 (101, 0, 0)"
    "return_code_from_process_status 0 = 0" "actions [] = []"
    by (simp_all add: status_zero return_code_exited actions_def)
  have w: "101 = command_pid_wt (state_wt_with w t)"
    "wait_for_all_children (state_wt_with w t) = w"
    "terminate_all_children_after_command_terminated (state_wt_with w t) = t"
    "actions (effects_wt (state_wt_with w t)) = []" for w t
    by (simp_all add: state_wt_with_def actions_def)
  have g: "getpgrp leader_proc = getpid leader_proc" by (simp add: leader_proc_def)
  note a = command_termination_policy [where child = 101 and st = quiet_state
      and p = leader_proc and status = 0 and errno = 0
      and es = "[Wait 55 0 0, Wait (- 1) 0 EINTR]" and cs = 0]
  note b = command_termination_policy [where st = quiet_state and p = leader_proc
      and es = "[Wait 101 0 0, Wait 55 0 0, Wait (- 1) 0 EINTR]" and cs = 0
      and cfg = default_config and before = "[(55, 0, 0)]" and command = 101
      and c = 101 and s = 0 and e = 0 and after = "[(56, 0, 0)]" and out = "[]"]
  have h00: "(101::int) > 0 \<and> 101 = command_pid_wt (state_wt_with 0 0) \<and>
             \<not> wait_for_all_children (state_wt_with 0 0) \<noteq> 0"
    and h01: "(101::int) > 0 \<and> 101 = command_pid_wt (state_wt_with 0 1) \<and>
             \<not> wait_for_all_children (state_wt_with 0 1) \<noteq> 0"
    and h10: "(101::int) > 0 \<and> 101 = command_pid_wt (state_wt_with 1 0) \<and>
             wait_for_all_children (state_wt_with 1 0) \<noteq> 0"
    by (simp_all add: state_wt_with_def)
  from command_termination_policy [THEN conjunct1, rule_format, OF h00,
      where p = leader_proc and status = 0 and errno = 0 and es = "[Wait 55 0 0]" and cs = 0]
    w [of 0 0] g
  have "\<exists>wst'. loop_wt leader_proc [Wait 101 0 0, Wait 55 0 0] (state_wt_with 0 0) 0 =
      Exits 0 wst' \<and> actions (effects_wt wst') = []"
    by (auto simp: status_zero)
  moreover
  from command_termination_policy [THEN conjunct1, rule_format, OF h01,
      where p = leader_proc and status = 0 and errno = 0 and es = "[Wait 55 0 0]" and cs = 0]
    w [of 0 1] g
  have "\<exists>wst'. loop_wt leader_proc [Wait 101 0 0, Wait 55 0 0] (state_wt_with 0 1) 0 =
      Exits 0 wst' \<and> actions (effects_wt wst') = [Kill 0 SIGTERM]"
    by (auto simp: status_zero)
  moreover
  from command_termination_policy [THEN conjunct2, THEN conjunct1, rule_format, OF h10,
      where p = leader_proc and status = 0 and errno = 0 and es = "[Wait 55 0 0]" and cs = 0]
    w [of 1 0] g
  have "\<exists>wst'. loop_wt leader_proc [Wait 101 0 0, Wait 55 0 0] (state_wt_with 1 0) 0 =
             loop_wt leader_proc [Wait 55 0 0] wst' 0 \<and> actions (effects_wt wst') = []"
    by auto
  moreover from a q have "\<exists>st1. shutdown_begun leader_proc quiet_state st1 \<and>
      tinyreaper_loop leader_proc [Wait 101 0 0, Wait 55 0 0, Wait (- 1) 0 EINTR] quiet_state 0 =
      tinyreaper_loop leader_proc [Wait 55 0 0, Wait (- 1) 0 EINTR] st1 0" by blast
  moreover from b n have "still_running (tinyreaper_loop leader_proc
      [Wait 101 0 0, Wait 55 0 0, Wait (- 1) 0 EINTR] quiet_state 0)" by blast
  moreover have "\<exists>ls'. little_reaper_main default_config 101
       [(55, 0, 0), (101, 0, 0), (56, 0, 0)] [] = Exits 0 ls' \<and> actions (printed ls') = []"
  proof -
    from b c l(1,2) have "\<exists>ls'. little_reaper_main default_config 101
       ([(55, 0, 0)] @ (101, 0, 0) # [(56, 0, 0)]) [] =
         Exits (return_code_from_process_status 0) ls' \<and> actions (printed ls') = actions []"
      by blast
    then show ?thesis using l(3,4) by simp
  qed
  ultimately show ?thesis by blast
qed

subsection \<open>Failures of \<open>wait\<close>\<close>

text \<open>
  C8, as stated, says that every failure of \<open>wait\<close> other than ECHILD is logged when
  verbose.  tinyreaper's loop has no branch for it.  With \<open>verbose\<close> set, SIGINT arrives
  while the loop is blocked in \<open>wait\<close>: the handler writes its lines and begins the
  shutdown, \<open>wait\<close> fails with EINTR, and the loop goes on having written nothing; the
  output is that of the handler alone.
\<close>

theorem silent_retry_counterexample:
  "verbose verbose_state = 1 \<and> \<not> is_no_child (Wait (- 1) 0 EINTR) \<and>
   tinyreaper_loop leader_proc [Signal SIGINT 1, Wait (- 1) 0 EINTR] verbose_state 0 =
     tinyreaper_loop leader_proc [Signal SIGINT 1] verbose_state 0 \<and>
   effects (state_of
     (tinyreaper_loop leader_proc [Signal SIGINT 1, Wait (- 1) 0 EINTR] verbose_state 0)) =
     [Write (''Signal: '' @ [CHR 0x00]), Write ''2'', Write [CHR 0x0A, CHR 0x00],
      Write (''tinyreaper: Terminating children...'' @ [CHR 0x0A, CHR 0x00]),
      Kill 0 SIGTERM,
      Write (''tinyreaper: tick tock...'' @ [CHR 0x0A, CHR 0x00]),
      Alarm 5]"
  by code_simp

text \<open>
  C8, amended.  In tinyreaper a result of \<open>wait\<close> that is neither a child nor
  \<open>-1\<close> with ECHILD is followed by the next pass of the loop with nothing changed and
  nothing written; as long as \<open>wait\<close> has not reported ECHILD the process ends only
  through the deadline alarm, with \<open>exit(-1)\<close>.  In little-reaper, in every state its
  loop can reach and under every setting of its options, a failure other than ECHILD is
  followed by the next pass of the loop, after the line \<open>wait error (%d %s)\<close> when
  verbose and with nothing written otherwise.  little-reaper's loop ends only after
  \<open>wait\<close> has reported that no child is left when \<open>-w\<close> or \<open>-W\<close> is set, and only
  after the command has been reaped when neither is set.
\<close>

theorem wait_failure_retried:
  "(\<not> child > 0 \<and> \<not> (child = - 1 \<and> errno = ECHILD) \<longrightarrow>
      tinyreaper_loop p (Wait child status errno # es) st cs = tinyreaper_loop p es st cs) \<and>
   ((\<forall>ev\<in>set es. \<not> is_no_child ev) \<and> tinyreaper_loop p es st cs = Exits rc st' \<longrightarrow>
      rc = - 1 \<and> (\<exists>ev\<in>set es. is_alarm ev)) \<and>
   (little_reaper_loop cfg command before (initial_loop_state out) = Running ls \<and>
    \<not> child > 0 \<and> errno \<noteq> ECHILD \<longrightarrow>
      little_reaper_loop cfg command (before @ (child, status, errno) # ws)
          (initial_loop_state out) =
        little_reaper_loop cfg command ws
          (ls\<lparr>printed := printed ls @
                (if verbose_lr cfg \<noteq> 0
                 then [Printf ''wait error (%d %s)'' [ArgInt errno, ArgStrerror errno],
                       Printf [CHR 0x0A] []]
                 else [])\<rparr>)) \<and>
   ((wait_forever cfg \<noteq> 0 \<or> wait_for_all_sub_processes cfg \<noteq> 0) \<and>
    \<not> still_running (little_reaper_loop cfg command ws (initial_loop_state out)) \<longrightarrow>
      (\<exists>w\<in>set ws. fails_no_child w)) \<and>
   (wait_forever cfg = 0 \<and> wait_for_all_sub_processes cfg = 0 \<and>
    \<not> still_running (little_reaper_loop cfg command ws (initial_loop_state out)) \<longrightarrow>
      (\<exists>w\<in>set ws. finishes command w))"
proof (intro conjI impI; (elim conjE)?)
  assume "\<not> child > 0" "\<not> (child = - 1 \<and> errno = ECHILD)"
  then show "tinyreaper_loop p (Wait child status errno # es) st cs = tinyreaper_loop p es st cs"
    by (simp add: loop_body_retry)
next
  assume n: "\<forall>ev\<in>set es. \<not> is_no_child ev" and e: "tinyreaper_loop p es st cs = Exits rc st'"
  from tinyreaper_loop_leaves_on_no_child [OF n, of p st cs] e
  have "rc = - 1 \<and> (\<exists>ev\<in>set es. is_alarm ev)" by auto
  then show "rc = - 1" and "\<exists>ev\<in>set es. is_alarm ev" by simp_all
next
  assume r: "little_reaper_loop cfg command before (initial_loop_state out) = Running ls"
    and f: "\<not> child > 0" "errno \<noteq> ECHILD"
  let ?ls = "VERBOSEf_lr cfg ''wait error (%d %s)'' [ArgInt errno, ArgStrerror errno] ls"
  from r have "policy_lr cfg ls = Running ls"
    by (rule little_reaper_loop_Running) (rule policy_lr_initial)
  then have "policy_lr cfg ?ls = Running ?ls" by (simp add: policy_lr_continues)
  with f have "little_reaper_loop cfg command ((child, status, errno) # ws) ls =
      little_reaper_loop cfg command ws ?ls"
    by (simp add: reap_lr_failure)
  moreover have "?ls = ls\<lparr>printed := printed ls @
                (if verbose_lr cfg \<noteq> 0
                 then [Printf ''wait error (%d %s)'' [ArgInt errno, ArgStrerror errno],
                       Printf [CHR 0x0A] []]
                 else [])\<rparr>"
    by (simp add: VERBOSEf_lr_def LOGf_lr_def)
  ultimately show "little_reaper_loop cfg command (before @ (child, status, errno) # ws)
          (initial_loop_state out) =
        little_reaper_loop cfg command ws
          (ls\<lparr>printed := printed ls @
                (if verbose_lr cfg \<noteq> 0
                 then [Printf ''wait error (%d %s)'' [ArgInt errno, ArgStrerror errno],
                       Printf [CHR 0x0A] []]
                 else [])\<rparr>)"
    using r by (simp add: little_reaper_loop_append)
next
  assume c: "wait_forever cfg \<noteq> 0 \<or> wait_for_all_sub_processes cfg \<noteq> 0"
    and s: "\<not> still_running (little_reaper_loop cfg command ws (initial_loop_state out))"
  show "\<exists>w\<in>set ws. fails_no_child w"
  proof (rule ccontr)
    assume "\<not> (\<exists>w\<in>set ws. fails_no_child w)"
    then have "\<forall>w\<in>set ws. \<not> fails_no_child w" by simp
    from little_reaper_waits_for_no_child [OF c _ this, of "initial_loop_state out" command] s
    show False by (auto simp: initial_loop_state_def)
  qed
next
  assume c: "wait_forever cfg = 0" "wait_for_all_sub_processes cfg = 0"
    and s: "\<not> still_running (little_reaper_loop cfg command ws (initial_loop_state out))"
  show "\<exists>w\<in>set ws. finishes command w"
  proof (rule ccontr)
    assume "\<not> (\<exists>w\<in>set ws. finishes command w)"
    then have "\<forall>w\<in>set ws. \<not> finishes command w" by simp
    from little_reaper_default_stops_on_command [OF c _ this, of "initial_loop_state out"] s
    show False by (simp add: initial_loop_state_def)
  qed
qed

theorem wait_failure_retried_witness:
  "tinyreaper_loop leader_proc [Signal SIGALRM 0, Wait (- 1) 0 EINTR] quiet_state 0 =
     tinyreaper_loop leader_proc [Signal SIGALRM 0] quiet_state 0 \<and>
   (\<exists>st'. tinyreaper_loop leader_proc [Signal SIGTERM 1, Wait (- 1) 0 EINTR, Signal SIGALRM 0]
       quiet_state 0 = Exits (- 1) st') \<and>
   little_reaper_loop verbose_config 101 [(55, 0, 0), (- 1, 0, EINTR)] (initial_loop_state []) =
     little_reaper_loop verbose_config 101 []
       (initial_loop_state [Printf ''child %d exited with %d'' [ArgInt 55, ArgInt 0],
          Printf [CHR 0x0A] [],
          Printf ''wait error (%d %s)'' [ArgInt EINTR, ArgStrerror EINTR],
          Printf [CHR 0x0A] []]) \<and>
   (\<exists>w\<in>set [(101, 0, 0), (- 1, 0, ECHILD)]. fails_no_child w) \<and>
   (\<exists>w\<in>set [(101, 0, 0), (- 1, 0, ECHILD)]. finishes 101 w)"
proof -
  have t: "\<not> (- 1::int) > 0 \<and> \<not> (- 1 = (- 1::int) \<and> EINTR = ECHILD)"
    "\<not> (- 1::int) > 0 \<and> EINTR \<noteq> ECHILD"
    by (simp_all add: EINTR_def ECHILD_def)
  have n: "\<forall>ev\<in>set [Signal SIGTERM 1, Wait (- 1) 0 EINTR, Signal SIGALRM 0]. \<not> is_no_child ev"
    by (simp add: EINTR_def ECHILD_def)
  have x: "exit_code (tinyreaper_loop leader_proc
       [Signal SIGTERM 1, Wait (- 1) 0 EINTR, Signal SIGALRM 0] quiet_state 0) = Some (- 1)"
    by code_simp
  then obtain st' where e: "tinyreaper_loop leader_proc
       [Signal SIGTERM 1, Wait (- 1) 0 EINTR, Signal SIGALRM 0] quiet_state 0 = Exits (- 1) st'"
    by (cases "tinyreaper_loop leader_proc
       [Signal SIGTERM 1, Wait (- 1) 0 EINTR, Signal SIGALRM 0] quiet_state 0") auto
  have h: "signal_handler leader_proc SIGALRM 0 quiet_state = Running quiet_state"
    by code_simp
  have r: "little_reaper_loop verbose_config 101 [(55, 0, 0)] (initial_loop_state []) =
      Running (initial_loop_state [Printf ''child %d exited with %d'' [ArgInt 55, ArgInt 0],
          Printf [CHR 0x0A] []])"
    by code_simp
  have v: "verbose_lr verbose_config \<noteq> 0" by (simp add: verbose_config_def)
  have w: "wait_forever wait_all_config \<noteq> 0 \<or> wait_for_all_sub_processes wait_all_config \<noteq> 0"
    "wait_forever default_config = 0" "wait_for_all_sub_processes default_config = 0"
    by (simp_all add: wait_all_config_def default_config_def)
  have nr: "\<not> still_running (little_reaper_loop wait_all_config 101
        [(101, 0, 0), (- 1, 0, ECHILD)] (initial_loop_state []))"
    "\<not> still_running (little_reaper_loop default_config 101
        [(101, 0, 0), (- 1, 0, ECHILD)] (initial_loop_state []))"
    by code_simp+
  have "tinyreaper_loop leader_proc [Signal SIGALRM 0, Wait (- 1) 0 EINTR] quiet_state 0 =
     tinyreaper_loop leader_proc [Signal SIGALRM 0] quiet_state 0"
    using h wait_failure_retried [THEN conjunct1, rule_format, OF t(1),
        where p = leader_proc and status = 0 and es = "[]" and st = quiet_state and cs = 0]
    by simp
  moreover have "\<exists>ev\<in>set [Signal SIGTERM 1, Wait (- 1) 0 EINTR, Signal SIGALRM 0]. is_alarm ev"
    using wait_failure_retried [THEN conjunct2, THEN conjunct1, rule_format, OF conjI [OF n e]]
    by blast
  moreover have "little_reaper_loop verbose_config 101 [(55, 0, 0), (- 1, 0, EINTR)]
      (initial_loop_state []) =
     little_reaper_loop verbose_config 101 []
       (initial_loop_state [Printf ''child %d exited with %d'' [ArgInt 55, ArgInt 0],
          Printf [CHR 0x0A] [],
          Printf ''wait error (%d %s)'' [ArgInt EINTR, ArgStrerror EINTR],
          Printf [CHR 0x0A] []])"
    using v wait_failure_retried [THEN conjunct2, THEN conjunct2, THEN conjunct1, rule_format,
        OF conjI [OF r t(2)], where status = 0 and ws = "[]"]
    by (simp add: initial_loop_state_def)
  moreover have "\<exists>w\<in>set [(101, 0, 0), (- 1, 0, ECHILD)]. fails_no_child w"
    using wait_failure_retried [THEN conjunct2, THEN conjunct2, THEN conjunct2, THEN conjunct1,
        rule_format, OF conjI [OF w(1) nr(1)]] .
  moreover have "\<exists>w\<in>set [(101, 0, 0), (- 1, 0, ECHILD)]. finishes 101 w"
    using wait_failure_retried [THEN conjunct2, THEN conjunct2, THEN conjunct2, THEN conjunct2,
        rule_format, OF conjI [OF w(2) conjI [OF w(3) nr(2)]]] .
  ultimately show ?thesis using e by blast
qed

end
